theory Spec2Isabelle
  imports Main "HOL-Library.Word"
begin

unbundle bit_operations_syntax

section \<open>Machine types and constants of memorywheel.h\<close>

text \<open>
  The header only compiles where \<open>sizeof(whl_slice_t) == 16\<close> (its static assertion),
  that is where \<open>size_t\<close> has 64 bits and \<open>int\<close>, \<open>unsigned\<close> and \<open>uint32_t\<close> have 32.
  C integers are words of that width: \<open>+\<close>, \<open>-\<close> and \<open>*\<close> wrap around, \<open>ucast\<close> is
  the conversion between unsigned widths.
\<close>

type_synonym u8 = "8 word"
type_synonym u32 = "32 word"
type_synonym u64 = "64 word"
type_synonym size_t = "64 word"
type_synonym c_int = "32 word"
type_synonym whl_offset_t = "32 word"

text \<open>A \<open>byte *\<close> into the wheel's buffer, as its distance in bytes from \<open>__whl_buf(wheel)\<close>.\<close>

type_synonym byte_ptr = "64 word"

definition UINT32_MAX :: u32 where
  "UINT32_MAX = 0xFFFFFFFF"

definition UINT64_MAX :: u64 where
  "UINT64_MAX = 0xFFFFFFFFFFFFFFFF"

definition SIZE_MAX :: size_t where
  "SIZE_MAX = 0xFFFFFFFFFFFFFFFF"

definition WHL_INVALID_OFFSET :: whl_offset_t where
  "WHL_INVALID_OFFSET = UINT32_MAX"

definition WHL_INVALID_OFFSET_PAIR :: u64 where
  "WHL_INVALID_OFFSET_PAIR = UINT64_MAX"

text \<open>
  \<open>WHL_ALIGN\<close> is the \<open>int\<close> literal 64. C converts it to the type of the other operand,
  so each use below fixes its width.
\<close>

definition WHL_ALIGN :: "'a::len word" where
  "WHL_ALIGN = 64"

text \<open>\<open>whl_slice_state_e\<close>, stored in the one-byte field \<open>state\<close>.\<close>

definition WHL_SLICE_UNINIT :: u8 where
  "WHL_SLICE_UNINIT = 0"

definition WHL_SLICE_READABLE :: u8 where
  "WHL_SLICE_READABLE = 1"

definition WHL_SLICE_RETURNED :: u8 where
  "WHL_SLICE_RETURNED = 2"

text \<open>\<open>sizeof(whl_slice_t)\<close>, as the static assertion of the header fixes it.\<close>

definition sizeof_whl_slice_t :: size_t where
  "sizeof_whl_slice_t = 16"

section \<open>Data model\<close>

record whl_slice_t =
  trailing_user_size :: size_t
  aligned_size_in_wheel :: whl_offset_t
  state :: u8

text \<open>
  \<open>whl_offset_pair_t\<close>: the struct view of the union. The member \<open>last\<close> is written
  \<open>last'\<close> here (\<open>last\<close> is a list function of HOL).
\<close>

record whl_offset_pair_t =
  head :: whl_offset_t
  last' :: whl_offset_t

text \<open>
  The \<open>u64\<close> view of the union on the little-endian hosts the header is written for:
  \<open>head\<close> is the low half, \<open>last\<close> the high half.
\<close>

definition pair_u64 :: "whl_offset_pair_t \<Rightarrow> u64" where
  "pair_u64 p = (ucast (head p) :: u64) OR push_bit 32 (ucast (last' p) :: u64)"

definition whl_invalid_offset_pair :: whl_offset_pair_t where
  "whl_invalid_offset_pair = \<lparr>head = WHL_INVALID_OFFSET, last' = WHL_INVALID_OFFSET\<rparr>"

text \<open>
  \<open>whl_spin_t\<close> (\<open>whl_t\<close>) together with the buffer that follows it in shared memory.
  \<open>buf\<close> holds the slice header stored at each byte distance from \<open>__whl_buf(wheel)\<close>;
  the code never checks an offset (\<open>__whl_at_unchecked\<close>), so every distance has a cell.
  The anonymous union of the struct is the field \<open>head_last\<close>: \<open>wheel->head\<close> is
  \<open>head (head_last w)\<close> and \<open>wheel->last\<close> is \<open>last' (head_last w)\<close>.
\<close>

record whl_t =
  aligned_size :: whl_offset_t
  head_last :: whl_offset_pair_t
  buf :: "u32 \<Rightarrow> whl_slice_t"

record whl_atomic_t =
  spin :: whl_t
  is_readable :: u8
  is_writable :: u8

section \<open>Initialisation\<close>

text \<open>
  \<open>__whl_alignment_padding(sz)\<close> and \<open>whl_align\<close>, on \<open>size_t\<close>.
\<close>

definition whl_alignment_padding :: "size_t \<Rightarrow> size_t" where
  "whl_alignment_padding sz = (WHL_ALIGN - (sz mod WHL_ALIGN)) mod WHL_ALIGN"

definition whl_align :: "size_t \<Rightarrow> size_t" where
  "whl_align sz = sz + whl_alignment_padding sz"

text \<open>
  The bound \<open>WHL_ALIGN * UINT32_MAX\<close> of \<open>whl_init\<close>: \<open>WHL_ALIGN\<close> is an \<open>int\<close> and
  \<open>UINT32_MAX\<close> an \<open>unsigned int\<close>, so C multiplies them as \<open>unsigned int\<close>, modulo
  \<open>2 ^ 32\<close>, and only then converts the product to \<open>size_t\<close> for the comparison.
\<close>

definition whl_init_bound :: size_t where
  "whl_init_bound = ucast ((WHL_ALIGN :: u32) * UINT32_MAX)"

text \<open>
  \<open>whl_init\<close> returns the \<open>int\<close> result and the wheel. The three tests of the
  \<open>||\<close> chain are evaluated left to right. The compound literal assigns the struct
  only: the buffer behind it is left as it was.
\<close>

definition whl_init :: "whl_t \<Rightarrow> size_t \<Rightarrow> c_int \<times> whl_t" where
  "whl_init wheel buf_size =
     (if buf_size < 2 * WHL_ALIGN then (- 1, wheel)
      else if buf_size mod WHL_ALIGN \<noteq> 0 then (- 1, wheel)
      else if buf_size \<ge> whl_init_bound then (- 1, wheel)
      else (0, wheel\<lparr>aligned_size := ucast ((buf_size - WHL_ALIGN) div WHL_ALIGN),
                     head_last := \<lparr>head = WHL_INVALID_OFFSET, last' = WHL_INVALID_OFFSET\<rparr>\<rparr>))"

text \<open>
  \<open>whl_atomic_init\<close>: the compound literal zeroes the \<open>spin\<close> member before \<open>whl_init\<close>
  runs on it.
\<close>

definition whl_atomic_init :: "whl_atomic_t \<Rightarrow> size_t \<Rightarrow> c_int \<times> whl_atomic_t" where
  "whl_atomic_init wheel buf_size =
     (let zeroed = (spin wheel)\<lparr>aligned_size := 0, head_last := \<lparr>head = 0, last' = 0\<rparr>\<rparr>;
          (r, s) = whl_init zeroed buf_size
      in (r, \<lparr>spin = s, is_readable = 0, is_writable = 1\<rparr>))"

section \<open>The spin wheel\<close>

text \<open>
  What C leaves undefined is a value of the model: \<open>__whl_affirm(c)\<close> with \<open>c\<close> false
  runs into \<open>__builtin_unreachable()\<close>, \<open>__whl_head\<close> may return \<open>NULL\<close>, and
  \<open>% wheel->aligned_size\<close> divides by zero on a wheel that was never initialised.
\<close>

datatype whl_fault = Unreachable | Null_deref | Div_by_zero

text \<open>
  Each operation is a function from the shared state to the shared state: the model
  takes the calls of the producer and of the consumer one after another, so that no
  store of the other process falls between two statements of a call. Where the source
  prepares for such a store (a compare-exchange that may fail), the branch is kept.
\<close>

text \<open>
  \<open>__whl_at_unchecked(wheel, offset)\<close> is \<open>__whl_buf(wheel) + WHL_ALIGN * offset\<close>: the
  product of an \<open>int\<close> and a \<open>uint32_t\<close>, computed as \<open>unsigned int\<close>. The result is the
  distance of the slice header from \<open>__whl_buf(wheel)\<close>, the key into \<open>buf\<close>.
\<close>

definition whl_at_unchecked :: "whl_offset_t \<Rightarrow> u32" where
  "whl_at_unchecked offset = WHL_ALIGN * offset"

text \<open>\<open>__whl_slice_buf(slice)\<close>: the byte after the slice header.\<close>

definition whl_slice_buf :: "u32 \<Rightarrow> byte_ptr" where
  "whl_slice_buf slice' = ucast slice' + sizeof_whl_slice_t"

text \<open>\<open>__whl_head\<close> and \<open>__whl_last\<close>: \<open>None\<close> is \<open>NULL\<close>.\<close>

definition whl_head :: "whl_t \<Rightarrow> u32 option" where
  "whl_head wheel =
     (let o' = head (head_last wheel)
      in if o' = WHL_INVALID_OFFSET then None else Some (whl_at_unchecked o'))"

definition whl_last :: "whl_t \<Rightarrow> u32 option" where
  "whl_last wheel =
     (let o' = last' (head_last wheel)
      in if o' = WHL_INVALID_OFFSET then None else Some (whl_at_unchecked o'))"

text \<open>
  \<open>__whl_next_offset_aligned\<close>. \<open>last_end\<close> is read before the two affirmations, as in
  the source; all arithmetic is on \<open>whl_offset_t\<close> and wraps.
\<close>

definition whl_next_offset_aligned ::
  "whl_t \<Rightarrow> whl_offset_t \<Rightarrow> whl_offset_pair_t \<Rightarrow> whl_fault + whl_offset_t" where
  "whl_next_offset_aligned wheel size' pair =
     (if pair_u64 pair = WHL_INVALID_OFFSET_PAIR then
        (if size' \<le> aligned_size wheel then Inr 0 else Inr WHL_INVALID_OFFSET)
      else
        (let head_off = head pair;
             last_off = last' pair;
             last_end = last_off + aligned_size_in_wheel (buf wheel (whl_at_unchecked last_off))
         in if head_off = WHL_INVALID_OFFSET then Inl Unreachable
            else if last_off = WHL_INVALID_OFFSET then Inl Unreachable
            else if last_off < head_off then
              (if size' \<le> head_off - last_end then Inr last_end else Inr WHL_INVALID_OFFSET)
            else if size' \<le> aligned_size wheel - last_end then Inr last_end
            else if size' \<le> head_off then Inr 0
            else Inr WHL_INVALID_OFFSET))"

text \<open>
  The stores \<open>whl_make_slice\<close> issues, listed in program order: the atomic store that
  back-fills \<open>aligned_size_in_wheel\<close> of a slice, the plain assignment of a whole slice
  header, the assignment to the caller's \<open>*bufp\<close>, and the atomic store or successful
  compare-exchange of \<open>head_last\<close>.
\<close>

datatype whl_store =
  Store_aligned_size_in_wheel u32 whl_offset_t
  | Store_slice u32 whl_slice_t
  | Store_bufp byte_ptr
  | Store_head_last whl_offset_pair_t

text \<open>
  \<open>atomic_compare_exchange_strong(&wheel->head_last, &expected, desired)\<close>: the result,
  the wheel, and \<open>expected\<close> as the call leaves it.
\<close>

definition cas_head_last ::
  "whl_t \<Rightarrow> whl_offset_pair_t \<Rightarrow> whl_offset_pair_t \<Rightarrow> bool \<times> whl_t \<times> whl_offset_pair_t" where
  "cas_head_last wheel expected desired =
     (if head_last wheel = expected then (True, wheel\<lparr>head_last := desired\<rparr>, expected)
      else (False, wheel, head_last wheel))"

text \<open>
  The \<open>do ... while (1)\<close> loop at the end of \<open>whl_make_slice\<close>. A failed
  compare-exchange is followed by a reload of the pair; the next round then compares
  against what the wheel holds.
\<close>

function whl_publish ::
  "whl_t \<Rightarrow> whl_offset_pair_t \<Rightarrow> whl_offset_t \<Rightarrow> whl_t \<times> whl_store list" where
  "whl_publish wheel pair offset =
     (if pair_u64 pair = WHL_INVALID_OFFSET_PAIR then
        (let pair' = \<lparr>head = offset, last' = offset\<rparr>
         in (wheel\<lparr>head_last := pair'\<rparr>, [Store_head_last pair']))
      else
        (let new_pair = \<lparr>head = head pair, last' = offset\<rparr>
         in if fst (cas_head_last wheel pair new_pair)
            then (fst (snd (cas_head_last wheel pair new_pair)), [Store_head_last new_pair])
            else whl_publish wheel (head_last wheel) offset))"
  by pat_completeness auto
termination
  by (relation "measure (\<lambda>(wheel, pair, offset). if head_last wheel = pair then 0 else 1)")
     (auto simp: cas_head_last_def split: if_splits)

text \<open>
  The back-fill statement of \<open>whl_make_slice\<close>:
  \<open>if (offset == 0 && old_last != WHL_INVALID_OFFSET) atomic_store(...)\<close>.
\<close>

definition whl_backfill ::
  "whl_t \<Rightarrow> whl_offset_t \<Rightarrow> whl_offset_t \<Rightarrow> whl_t \<times> whl_store list" where
  "whl_backfill wheel offset old_last =
     (if offset = 0 \<and> old_last \<noteq> WHL_INVALID_OFFSET then
        (let old_slice = whl_at_unchecked old_last;
             grown = aligned_size wheel - old_last
         in (wheel\<lparr>buf := (buf wheel)(old_slice :=
                      (buf wheel old_slice)\<lparr>aligned_size_in_wheel := grown\<rparr>)\<rparr>,
             [Store_aligned_size_in_wheel old_slice grown]))
      else (wheel, []))"

text \<open>
  The first statements of \<open>whl_make_slice\<close> after its guard: \<open>size_in_wheel\<close>, the
  header and the requested bytes with the padding added.
\<close>

definition whl_size_in_wheel :: "size_t \<Rightarrow> size_t" where
  "whl_size_in_wheel size' =
     (let size_in_wheel = sizeof_whl_slice_t + size'
      in size_in_wheel + whl_alignment_padding size_in_wheel)"

text \<open>
  The statements of \<open>whl_make_slice\<close> after an offset is selected: the back-fill, the
  assignment of the new slice header (the compound literal leaves \<open>state\<close> zero), the
  assignment to \<open>*bufp\<close>, and the publishing loop. The result is the offset, the wheel,
  the caller's \<open>*bufp\<close> and the stores issued, in program order.
\<close>

definition whl_place_slice ::
  "whl_t \<Rightarrow> whl_offset_pair_t \<Rightarrow> whl_offset_t \<Rightarrow> size_t \<Rightarrow> whl_offset_t \<Rightarrow>
     whl_offset_t \<times> whl_t \<times> byte_ptr \<times> whl_store list" where
  "whl_place_slice wheel pair offset size' aligned_size_in_wheel' =
     (let old_last = last' pair;
          (wheel1, stores1) = whl_backfill wheel offset old_last;
          new_slice = whl_at_unchecked offset;
          header = \<lparr>trailing_user_size = size',
                    aligned_size_in_wheel = aligned_size_in_wheel',
                    state = 0\<rparr>;
          wheel2 = wheel1\<lparr>buf := (buf wheel1)(new_slice := header)\<rparr>;
          bufp' = whl_slice_buf new_slice;
          (wheel3, stores3) = whl_publish wheel2 pair offset
      in (offset, wheel3, bufp',
          stores1 @ [Store_slice new_slice header, Store_bufp bufp'] @ stores3))"

text \<open>
  \<open>whl_make_slice\<close> returns the offset, the wheel, the caller's \<open>*bufp\<close> and the stores
  it issued. \<open>size_in_wheel / WHL_ALIGN\<close> is a \<open>size_t\<close> assigned to a
  \<open>whl_offset_t\<close>: the conversion keeps the low 32 bits.
\<close>

definition whl_make_slice ::
  "whl_t \<Rightarrow> byte_ptr \<Rightarrow> size_t \<Rightarrow>
     whl_fault + (whl_offset_t \<times> whl_t \<times> byte_ptr \<times> whl_store list)" where
  "whl_make_slice wheel bufp size' =
     (if size' > SIZE_MAX - sizeof_whl_slice_t then Inr (WHL_INVALID_OFFSET, wheel, bufp, [])
      else
        (let size_in_wheel = whl_size_in_wheel size'
         in if size_in_wheel mod WHL_ALIGN \<noteq> 0 then Inl Unreachable
            else
              (let aligned_size_in_wheel' = (ucast (size_in_wheel div WHL_ALIGN) :: whl_offset_t);
                   pair = head_last wheel
               in case whl_next_offset_aligned wheel aligned_size_in_wheel' pair of
                    Inl fault \<Rightarrow> Inl fault
                  | Inr offset \<Rightarrow>
                      if offset = WHL_INVALID_OFFSET
                      then Inr (WHL_INVALID_OFFSET, wheel, bufp, [])
                      else Inr (whl_place_slice wheel pair offset size'
                                  aligned_size_in_wheel'))))"

text \<open>
  The atomic store, or exchange, of \<open>v\<close> into the \<open>state\<close> of the slice at \<open>offset\<close>.
\<close>

definition whl_set_state :: "whl_t \<Rightarrow> whl_offset_t \<Rightarrow> u8 \<Rightarrow> whl_t" where
  "whl_set_state wheel offset v =
     (let slice' = whl_at_unchecked offset
      in wheel\<lparr>buf := (buf wheel)(slice' := (buf wheel slice')\<lparr>state := v\<rparr>)\<rparr>)"

text \<open>\<open>whl_share_slice\<close>.\<close>

definition whl_share_slice :: "whl_t \<Rightarrow> whl_offset_t \<Rightarrow> whl_t" where
  "whl_share_slice wheel offset = whl_set_state wheel offset WHL_SLICE_READABLE"

text \<open>
  \<open>whl_next_shared_slice\<close> takes the wheel and the caller's \<open>*bufp\<close> and \<open>*size\<close>, and
  returns the offset together with all three as the call leaves them.
\<close>

definition whl_next_shared_slice ::
  "whl_t \<Rightarrow> byte_ptr \<Rightarrow> size_t \<Rightarrow> whl_offset_t \<times> whl_t \<times> byte_ptr \<times> size_t" where
  "whl_next_shared_slice wheel bufp size' =
     (let offset = head (head_last wheel)
      in if offset = WHL_INVALID_OFFSET then (WHL_INVALID_OFFSET, wheel, bufp, size')
         else
           (let slice' = whl_at_unchecked offset
            in if state (buf wheel slice') \<noteq> WHL_SLICE_READABLE
               then (WHL_INVALID_OFFSET, wheel, bufp, size')
               else (offset, wheel, whl_slice_buf slice', trailing_user_size (buf wheel slice'))))"

text \<open>
  The body of the \<open>while\<close> loop of \<open>whl_return_slice\<close>, entered with the pair the
  loop condition loaded: the compare-exchange to the invalid pair when \<open>head\<close> and \<open>last\<close>
  are equal, the store of the next head otherwise (also after a failed compare-exchange,
  which leaves the current pair in \<open>pair\<close>).
\<close>

definition whl_return_advance :: "whl_t \<Rightarrow> whl_offset_pair_t \<Rightarrow> whl_fault + whl_t" where
  "whl_return_advance wheel pair =
     (let (swapped, wheel1, pair1) =
            (if head pair = last' pair
             then cas_head_last wheel pair whl_invalid_offset_pair
             else (False, wheel, pair))
      in if swapped then Inr wheel1
         else if aligned_size wheel1 = 0 then Inl Div_by_zero
         else
           (let head_slice = whl_at_unchecked (head pair1);
                next_head =
                  (head pair1 + aligned_size_in_wheel (buf wheel1 head_slice))
                    mod aligned_size wheel1
            in Inr (wheel1\<lparr>head_last := (head_last wheel1)\<lparr>head := next_head\<rparr>\<rparr>)))"

text \<open>
  The \<open>while\<close> loop of \<open>whl_return_slice\<close>, with the counter \<open>returns\<close>. It need not
  terminate on a wheel whose chain of slices is broken, so it is a partial function:
  \<open>None\<close> is a loop that runs forever.
\<close>

partial_function (option) whl_return_loop ::
  "whl_t \<Rightarrow> size_t \<Rightarrow> (whl_fault + size_t \<times> whl_t) option" where
  "whl_return_loop wheel returns =
     (let pair = head_last wheel
      in if head pair = WHL_INVALID_OFFSET then Some (Inr (returns, wheel))
         else
           (case whl_head wheel of
              None \<Rightarrow> Some (Inl Null_deref)
            | Some head_slice \<Rightarrow>
                if state (buf wheel head_slice) \<noteq> WHL_SLICE_RETURNED
                then Some (Inr (returns, wheel))
                else
                  (case whl_return_advance wheel pair of
                     Inl fault \<Rightarrow> Some (Inl fault)
                   | Inr wheel' \<Rightarrow> whl_return_loop wheel' (returns + 1))))"

text \<open>
  \<open>whl_return_slice\<close> returns the count and the wheel. \<open>atomic_exchange\<close> stores
  \<open>WHL_SLICE_RETURNED\<close> also when the slice held it already.
\<close>

definition whl_return_slice ::
  "whl_t \<Rightarrow> whl_offset_t \<Rightarrow> (whl_fault + size_t \<times> whl_t) option" where
  "whl_return_slice wheel off =
     (let slice' = whl_at_unchecked off;
          old = state (buf wheel slice');
          wheel1 = whl_set_state wheel off WHL_SLICE_RETURNED
      in if old = WHL_SLICE_RETURNED then Some (Inr (0, wheel1))
         else whl_return_loop wheel1 0)"

text \<open>
  A caller of the spin wheel: one call of the four operations, with its arguments. The
  caller's \<open>*bufp\<close> and \<open>*size\<close> do not reach the wheel and start as zero.
\<close>

datatype whl_op =
  Make_slice size_t
  | Share_slice whl_offset_t
  | Next_shared_slice
  | Return_slice whl_offset_t

definition whl_step :: "whl_t \<Rightarrow> whl_op \<Rightarrow> (whl_fault + whl_t) option" where
  "whl_step wheel op =
     (case op of
        Make_slice size' \<Rightarrow>
          (case whl_make_slice wheel 0 size' of
             Inl fault \<Rightarrow> Some (Inl fault)
           | Inr (offset, wheel', bufp', stores) \<Rightarrow> Some (Inr wheel'))
      | Share_slice offset \<Rightarrow> Some (Inr (whl_share_slice wheel offset))
      | Next_shared_slice \<Rightarrow> Some (Inr (fst (snd (whl_next_shared_slice wheel 0 0))))
      | Return_slice off \<Rightarrow>
          (case whl_return_slice wheel off of
             None \<Rightarrow> None
           | Some (Inl fault) \<Rightarrow> Some (Inl fault)
           | Some (Inr (returns, wheel')) \<Rightarrow> Some (Inr wheel')))"

text \<open>A sequence of calls stops at the first fault, and has no result when a call loops.\<close>

fun whl_run :: "whl_t \<Rightarrow> whl_op list \<Rightarrow> (whl_fault + whl_t) option" where
  "whl_run wheel [] = Some (Inr wheel)"
| "whl_run wheel (op # ops) =
     (case whl_step wheel op of
        None \<Rightarrow> None
      | Some (Inl fault) \<Rightarrow> Some (Inl fault)
      | Some (Inr wheel') \<Rightarrow> whl_run wheel' ops)"

section \<open>The eventfd layer\<close>

text \<open>
  \<open>whl_efd_t\<close>, with the shared \<open>whl_atomic_t\<close> it points to held by value. The calls
  \<open>__whl_efd_write(efd, v)\<close> and \<open>__whl_efd_read(efd)\<close> act on kernel counters outside
  the shared region, and the wheel ignores their results; the model lists the calls an
  operation makes. \<open>errno\<close> is not modelled.
\<close>

record whl_efd_t =
  atomic :: whl_atomic_t
  readable :: c_int
  writable :: c_int

datatype efd_call = Efd_write c_int u64 | Efd_read c_int

definition whl_efd_init_from_eventfds :: "whl_atomic_t \<Rightarrow> c_int \<Rightarrow> c_int \<Rightarrow> whl_efd_t" where
  "whl_efd_init_from_eventfds atomic' readable' writable' =
     \<lparr>atomic = atomic', readable = readable', writable = writable'\<rparr>"

definition whl_efd_make_slice ::
  "whl_efd_t \<Rightarrow> byte_ptr \<Rightarrow> size_t \<Rightarrow>
     whl_fault + (whl_offset_t \<times> whl_efd_t \<times> byte_ptr \<times> efd_call list)" where
  "whl_efd_make_slice wheel bufp size' =
     (case whl_make_slice (spin (atomic wheel)) bufp size' of
        Inl fault \<Rightarrow> Inl fault
      | Inr (offset, spin', bufp', stores) \<Rightarrow>
          (let atomic1 = (atomic wheel)\<lparr>spin := spin'\<rparr>
           in if offset = WHL_INVALID_OFFSET then
                (let old = is_writable atomic1;
                     atomic2 = atomic1\<lparr>is_writable := 0\<rparr>
                 in Inr (offset, wheel\<lparr>atomic := atomic2\<rparr>, bufp',
                         if old = 1 then [Efd_write (writable wheel) 1] else []))
              else Inr (offset, wheel\<lparr>atomic := atomic1\<rparr>, bufp', [])))"

definition whl_efd_share_slice :: "whl_efd_t \<Rightarrow> whl_offset_t \<Rightarrow> whl_efd_t \<times> efd_call list" where
  "whl_efd_share_slice wheel offset =
     (let atomic1 = (atomic wheel)\<lparr>spin := whl_share_slice (spin (atomic wheel)) offset\<rparr>;
          old = is_readable atomic1;
          atomic2 = atomic1\<lparr>is_readable := 1\<rparr>
      in (wheel\<lparr>atomic := atomic2\<rparr>, if old = 0 then [Efd_write (readable wheel) 1] else []))"

definition whl_efd_next_shared_slice ::
  "whl_efd_t \<Rightarrow> byte_ptr \<Rightarrow> size_t \<Rightarrow>
     whl_offset_t \<times> whl_efd_t \<times> byte_ptr \<times> size_t \<times> efd_call list" where
  "whl_efd_next_shared_slice wheel bufp size' =
     (case whl_next_shared_slice (spin (atomic wheel)) bufp size' of
        (offset, spin', bufp', size'') \<Rightarrow>
          (let atomic1 = (atomic wheel)\<lparr>spin := spin'\<rparr>
           in if offset = WHL_INVALID_OFFSET then
                (let old = is_readable atomic1;
                     atomic2 = atomic1\<lparr>is_readable := 0\<rparr>
                 in (offset, wheel\<lparr>atomic := atomic2\<rparr>, bufp', size'',
                     if old = 1 then [Efd_read (readable wheel)] else []))
              else (offset, wheel\<lparr>atomic := atomic1\<rparr>, bufp', size'', [])))"

definition whl_efd_return_slice ::
  "whl_efd_t \<Rightarrow> whl_offset_t \<Rightarrow> (whl_fault + size_t \<times> whl_efd_t \<times> efd_call list) option" where
  "whl_efd_return_slice wheel off =
     (case whl_return_slice (spin (atomic wheel)) off of
        None \<Rightarrow> None
      | Some (Inl fault) \<Rightarrow> Some (Inl fault)
      | Some (Inr (r, spin')) \<Rightarrow>
          (let atomic1 = (atomic wheel)\<lparr>spin := spin'\<rparr>;
               old = is_writable atomic1;
               atomic2 = atomic1\<lparr>is_writable := 1\<rparr>
           in Some (Inr (r, wheel\<lparr>atomic := atomic2\<rparr>,
                         if old = 0 then [Efd_read (writable wheel)] else []))))"

text \<open>
  A caller of the eventfd layer. Every call leaves an event with what it returned; the
  history of a run lists the events, the latest first.
\<close>

datatype efd_event =
  Made whl_offset_t
  | Shared whl_offset_t
  | Peeked whl_offset_t
  | Returned size_t

definition efd_step :: "whl_efd_t \<Rightarrow> whl_op \<Rightarrow> (whl_fault + whl_efd_t \<times> efd_event) option" where
  "efd_step wheel op =
     (case op of
        Make_slice size' \<Rightarrow>
          (case whl_efd_make_slice wheel 0 size' of
             Inl fault \<Rightarrow> Some (Inl fault)
           | Inr (offset, wheel', bufp', calls) \<Rightarrow> Some (Inr (wheel', Made offset)))
      | Share_slice offset \<Rightarrow> Some (Inr (fst (whl_efd_share_slice wheel offset), Shared offset))
      | Next_shared_slice \<Rightarrow>
          (case whl_efd_next_shared_slice wheel 0 0 of
             (offset, wheel', rest) \<Rightarrow> Some (Inr (wheel', Peeked offset)))
      | Return_slice off \<Rightarrow>
          (case whl_efd_return_slice wheel off of
             None \<Rightarrow> None
           | Some (Inl fault) \<Rightarrow> Some (Inl fault)
           | Some (Inr (r, wheel', calls)) \<Rightarrow> Some (Inr (wheel', Returned r))))"

fun efd_run ::
  "whl_efd_t \<Rightarrow> efd_event list \<Rightarrow> whl_op list \<Rightarrow>
     (whl_fault + whl_efd_t \<times> efd_event list) option" where
  "efd_run wheel history [] = Some (Inr (wheel, history))"
| "efd_run wheel history (op # ops) =
     (case efd_step wheel op of
        None \<Rightarrow> None
      | Some (Inl fault) \<Rightarrow> Some (Inl fault)
      | Some (Inr (wheel', event)) \<Rightarrow> efd_run wheel' (event # history) ops)"

section \<open>Descriptor passing (scm.c)\<close>

text \<open>
  \<open>recv_fds_with_data\<close> reads one datagram with \<open>recvmsg\<close>. The kernel is outside the
  repository; the model takes what it hands back. \<open>SOL_SOCKET\<close>, \<open>SCM_RIGHTS\<close> and
  \<open>EINTR\<close> come from the system headers, with their values on Linux; no theorem below
  depends on the values.
\<close>

datatype scm_fault = Scm_null_deref | Scm_out_of_bounds

definition EINTR :: c_int where
  "EINTR = 4"

definition SOL_SOCKET :: c_int where
  "SOL_SOCKET = 1"

definition SCM_RIGHTS :: c_int where
  "SCM_RIGHTS = 1"

text \<open>
  The first control message of a received datagram: its level, its type, and the
  \<open>int\<close>s that lie between \<open>CMSG_DATA(cmsg)\<close> and \<open>(char *)cmsg + cmsg->cmsg_len\<close>. The
  kernel sets \<open>cmsg_len\<close> to \<open>CMSG_LEN(sizeof(int) * n)\<close>, so a pointer that walks the
  \<open>int\<close>s meets the end exactly, as the final \<open>assert\<close> of the function demands.
\<close>

record cmsghdr =
  cmsg_level :: c_int
  cmsg_type :: c_int
  cmsg_fds :: "c_int list"

text \<open>
  One return of \<open>recvmsg\<close>: the value stored in \<open>int ret\<close>, \<open>errno\<close> after the call, and
  \<open>CMSG_FIRSTHDR(&msg)\<close> (\<open>None\<close> is \<open>NULL\<close>).
\<close>

record recvmsg_t =
  rm_ret :: c_int
  rm_errno :: c_int
  rm_cmsg :: "cmsghdr option"

text \<open>
  The \<open>do ... while (ret < 0 && errno == EINTR)\<close> loop over the successive returns of
  \<open>recvmsg\<close>; \<open>None\<close> when the kernel never comes back with anything else.
\<close>

fun recvmsg_retry :: "recvmsg_t list \<Rightarrow> recvmsg_t option" where
  "recvmsg_retry [] = None"
| "recvmsg_retry (r # rs) =
     (if rm_ret r <s 0 \<and> rm_errno r = EINTR then recvmsg_retry rs else Some r)"

text \<open>
  The loop \<open>while (i < maxfds && cmsgfds < cmsgend) outfds[i++] = *(cmsgfds++)\<close>. The
  caller's array \<open>outfds\<close> is \<open>None\<close> when the pointer is \<open>NULL\<close>, and has as many
  cells as the caller allocated. The result is \<open>i\<close>, the descriptors not yet read, and
  the array.
\<close>

fun copy_fds ::
  "c_int \<Rightarrow> c_int \<Rightarrow> c_int list \<Rightarrow> c_int list option \<Rightarrow>
     scm_fault + (c_int \<times> c_int list \<times> c_int list option)" where
  "copy_fds i maxfds [] outfds = Inr (i, [], outfds)"
| "copy_fds i maxfds (fd # cmsgfds) outfds =
     (if i <s maxfds then
        (case outfds of
           None \<Rightarrow> Inl Scm_null_deref
         | Some out \<Rightarrow>
             if unat i < length out
             then copy_fds (i + 1) maxfds cmsgfds (Some (out[unat i := fd]))
             else Inl Scm_out_of_bounds)
      else Inr (i, fd # cmsgfds, outfds))"

text \<open>
  What a call leaves behind: the \<open>size_t\<close> it returns, the caller's array and count
  (\<open>None\<close> for a \<open>NULL\<close> pointer), and the descriptors it closed.
\<close>

record recv_result =
  returned :: size_t
  outfds_after :: "c_int list option"
  n_outfds_after :: "size_t option"
  closed :: "c_int list"

text \<open>
  The branch for a datagram without an \<open>SCM_RIGHTS\<close> message:
  \<open>*n_outfds = 0; return ret;\<close>. The \<open>int\<close> is converted to \<open>size_t\<close>.
\<close>

definition recv_no_rights ::
  "c_int \<Rightarrow> c_int list option \<Rightarrow> size_t option \<Rightarrow> scm_fault + recv_result" where
  "recv_no_rights ret outfds n_outfds =
     (case n_outfds of
        None \<Rightarrow> Inl Scm_null_deref
      | Some n \<Rightarrow>
          Inr \<lparr>returned = scast ret, outfds_after = outfds, n_outfds_after = Some 0,
               closed = []\<rparr>)"

text \<open>
  The rest of the function for a datagram with an \<open>SCM_RIGHTS\<close> message: copy up to
  \<open>maxfds\<close> descriptors, store the count if \<open>n_outfds\<close> is not \<open>NULL\<close>, close the
  descriptors left over.
\<close>

definition recv_rights ::
  "c_int \<Rightarrow> c_int \<Rightarrow> cmsghdr \<Rightarrow> c_int list option \<Rightarrow> size_t option \<Rightarrow>
     scm_fault + recv_result" where
  "recv_rights ret maxfds cmsg outfds n_outfds =
     (case copy_fds 0 maxfds (cmsg_fds cmsg) outfds of
        Inl fault \<Rightarrow> Inl fault
      | Inr (i, rest, outfds') \<Rightarrow>
          Inr \<lparr>returned = scast ret, outfds_after = outfds',
               n_outfds_after = (case n_outfds of None \<Rightarrow> None | Some n \<Rightarrow> Some (scast i)),
               closed = rest\<rparr>)"

text \<open>
  \<open>recv_fds_with_data\<close>, given the returns of \<open>recvmsg\<close>, the caller's \<open>outfds\<close> and
  \<open>n_outfds\<close>. \<open>int maxfds = n_outfds ? *n_outfds : 0\<close> keeps the low 32 bits of the
  count. The three tests on \<open>cmsg\<close> are evaluated left to right.
\<close>

definition recv_fds_with_data ::
  "recvmsg_t list \<Rightarrow> c_int list option \<Rightarrow> size_t option \<Rightarrow> (scm_fault + recv_result) option" where
  "recv_fds_with_data msgs outfds n_outfds =
     (let maxfds = (case n_outfds of Some n \<Rightarrow> (ucast n :: c_int) | None \<Rightarrow> 0)
      in case recvmsg_retry msgs of
           None \<Rightarrow> None
         | Some r \<Rightarrow>
             (let ret = rm_ret r
              in if ret <s 0
                 then Some (Inr \<lparr>returned = scast ret, outfds_after = outfds,
                                  n_outfds_after = n_outfds, closed = []\<rparr>)
                 else
                   (case rm_cmsg r of
                      None \<Rightarrow> Some (recv_no_rights ret outfds n_outfds)
                    | Some cmsg \<Rightarrow>
                        if cmsg_level cmsg \<noteq> SOL_SOCKET
                        then Some (recv_no_rights ret outfds n_outfds)
                        else if cmsg_type cmsg \<noteq> SCM_RIGHTS
                        then Some (recv_no_rights ret outfds n_outfds)
                        else Some (recv_rights ret maxfds cmsg outfds n_outfds))))"

text \<open>The datagram carries no control message, or one that is not \<open>SOL_SOCKET\<close> / \<open>SCM_RIGHTS\<close>.\<close>

definition lacks_rights :: "recvmsg_t \<Rightarrow> bool" where
  "lacks_rights r =
     (case rm_cmsg r of
        None \<Rightarrow> True
      | Some cmsg \<Rightarrow> cmsg_level cmsg \<noteq> SOL_SOCKET \<or> cmsg_type cmsg \<noteq> SCM_RIGHTS)"

text \<open>Datagrams with one payload byte: without a control message, and with three descriptors.\<close>

definition msg_plain :: recvmsg_t where
  "msg_plain = \<lparr>rm_ret = 1, rm_errno = 0, rm_cmsg = None\<rparr>"

definition msg_rights :: recvmsg_t where
  "msg_rights =
     \<lparr>rm_ret = 1, rm_errno = 0,
      rm_cmsg = Some \<lparr>cmsg_level = SOL_SOCKET, cmsg_type = SCM_RIGHTS, cmsg_fds = [5, 6, 7]\<rparr>\<rparr>"

text \<open>A return of \<open>recvmsg\<close> that was interrupted by a signal.\<close>

definition msg_eintr :: recvmsg_t where
  "msg_eintr = \<lparr>rm_ret = - 1, rm_errno = EINTR, rm_cmsg = None\<rparr>"

section \<open>Concrete wheels\<close>

text \<open>
  A shared region as the kernel hands it out, all zero, and the wheel \<open>whl_init\<close> makes
  of it for a region of 128 bytes: one quantum for the header, one for slices.
\<close>

definition zero_slice :: whl_slice_t where
  "zero_slice = \<lparr>trailing_user_size = 0, aligned_size_in_wheel = 0, state = 0\<rparr>"

definition zeroed_wheel :: whl_t where
  "zeroed_wheel =
     \<lparr>aligned_size = 0, head_last = \<lparr>head = 0, last' = 0\<rparr>, buf = (\<lambda>_. zero_slice)\<rparr>"

definition wheel_128 :: whl_t where
  "wheel_128 =
     \<lparr>aligned_size = 1,
      head_last = \<lparr>head = WHL_INVALID_OFFSET, last' = WHL_INVALID_OFFSET\<rparr>,
      buf = (\<lambda>_. zero_slice)\<rparr>"

text \<open>\<open>wheel_128\<close> holding one slice of 16 user bytes at offset 0, not yet shared.\<close>

definition wheel_128_one_slice :: whl_t where
  "wheel_128_one_slice =
     \<lparr>aligned_size = 1,
      head_last = \<lparr>head = 0, last' = 0\<rparr>,
      buf = (\<lambda>_. zero_slice)
              (0 := \<lparr>trailing_user_size = 16, aligned_size_in_wheel = 1, state = 0\<rparr>)\<rparr>"

text \<open>The wheel \<open>whl_init\<close> makes of a zeroed region of 320 bytes: four units.\<close>

definition wheel_320 :: whl_t where
  "wheel_320 =
     \<lparr>aligned_size = 4,
      head_last = \<lparr>head = WHL_INVALID_OFFSET, last' = WHL_INVALID_OFFSET\<rparr>,
      buf = (\<lambda>_. zero_slice)\<rparr>"

text \<open>
  A wheel of four units (a region of 320 bytes) after three slices of 16 bytes were
  allocated and shared and the first two returned: \<open>head\<close> and \<open>last\<close> are the slice at
  offset 2, one unit is free behind it and two in front.
\<close>

definition wheel_320_tail :: whl_t where
  "wheel_320_tail =
     \<lparr>aligned_size = 4,
      head_last = \<lparr>head = 2, last' = 2\<rparr>,
      buf = (\<lambda>_. zero_slice)
              (0 := \<lparr>trailing_user_size = 16, aligned_size_in_wheel = 1, state = 2\<rparr>,
               64 := \<lparr>trailing_user_size = 16, aligned_size_in_wheel = 1, state = 2\<rparr>,
               128 := \<lparr>trailing_user_size = 16, aligned_size_in_wheel = 1, state = 1\<rparr>)\<rparr>"

text \<open>\<open>wheel_320_tail\<close> after a request of 49 bytes (two units) wrapped to offset 0.\<close>

definition wheel_320_wrapped :: whl_t where
  "wheel_320_wrapped =
     \<lparr>aligned_size = 4,
      head_last = \<lparr>head = 2, last' = 0\<rparr>,
      buf = (\<lambda>_. zero_slice)
              (0 := \<lparr>trailing_user_size = 49, aligned_size_in_wheel = 2, state = 0\<rparr>,
               64 := \<lparr>trailing_user_size = 16, aligned_size_in_wheel = 1, state = 2\<rparr>,
               128 := \<lparr>trailing_user_size = 16, aligned_size_in_wheel = 2, state = 1\<rparr>)\<rparr>"

text \<open>
  The wheel of four units with three shared slices of which the middle one was returned
  out of order; returning the first one leads to \<open>wheel_320_tail\<close>.
\<close>

definition wheel_320_three :: whl_t where
  "wheel_320_three =
     \<lparr>aligned_size = 4,
      head_last = \<lparr>head = 0, last' = 2\<rparr>,
      buf = (\<lambda>_. zero_slice)
              (0 := \<lparr>trailing_user_size = 16, aligned_size_in_wheel = 1, state = 1\<rparr>,
               64 := \<lparr>trailing_user_size = 16, aligned_size_in_wheel = 1, state = 2\<rparr>,
               128 := \<lparr>trailing_user_size = 16, aligned_size_in_wheel = 1, state = 1\<rparr>)\<rparr>"

text \<open>
  The eventfd layer on the region of 128 bytes, with descriptors 3 and 4: the shared
  header before and after \<open>whl_atomic_init\<close>, the wheel after its only slice was
  allocated, shared, peeked and returned, and the wheel after a second allocation failed.
\<close>

definition zeroed_atomic :: whl_atomic_t where
  "zeroed_atomic = \<lparr>spin = zeroed_wheel, is_readable = 0, is_writable = 0\<rparr>"

definition atomic_128 :: whl_atomic_t where
  "atomic_128 = \<lparr>spin = wheel_128, is_readable = 0, is_writable = 1\<rparr>"

definition wheel_128_returned :: whl_t where
  "wheel_128_returned =
     \<lparr>aligned_size = 1,
      head_last = \<lparr>head = WHL_INVALID_OFFSET, last' = WHL_INVALID_OFFSET\<rparr>,
      buf = (\<lambda>_. zero_slice)
              (0 := \<lparr>trailing_user_size = 16, aligned_size_in_wheel = 1, state = 2\<rparr>)\<rparr>"

definition efd_128_drained :: whl_efd_t where
  "efd_128_drained =
     \<lparr>atomic = \<lparr>spin = wheel_128_returned, is_readable = 1, is_writable = 1\<rparr>,
      readable = 3, writable = 4\<rparr>"

definition efd_128_full :: whl_efd_t where
  "efd_128_full =
     \<lparr>atomic = \<lparr>spin = wheel_128_one_slice, is_readable = 0, is_writable = 0\<rparr>,
      readable = 3, writable = 4\<rparr>"

section \<open>Predicates on wheels\<close>

text \<open>The two offsets of the pair are both valid or both invalid.\<close>

definition pair_ok :: "whl_t \<Rightarrow> bool" where
  "pair_ok wheel =
     ((head (head_last wheel) = WHL_INVALID_OFFSET) =
      (last' (head_last wheel) = WHL_INVALID_OFFSET))"

text \<open>
  The chain of live slices: \<open>whl_chain wheel h c\<close> says that \<open>c\<close> lists the offsets met
  when walking from \<open>h\<close> to \<open>last\<close>, each step adding the units of the slice modulo
  \<open>aligned_size\<close>, and that \<open>last\<close> is met at the end of \<open>c\<close> and not before.
\<close>

fun whl_chain :: "whl_t \<Rightarrow> whl_offset_t \<Rightarrow> whl_offset_t list \<Rightarrow> bool" where
  "whl_chain wheel h [] = False"
| "whl_chain wheel h [x] = (x = h \<and> h = last' (head_last wheel))"
| "whl_chain wheel h (x # y # ys) =
     (x = h \<and> h \<noteq> last' (head_last wheel) \<and>
      whl_chain wheel
        ((h + aligned_size_in_wheel (buf wheel (whl_at_unchecked h))) mod aligned_size wheel)
        (y # ys))"

text \<open>
  The chain of the whole wheel, from \<open>head\<close>: empty on an empty wheel, whose pair is
  invalid.
\<close>

definition live_chain :: "whl_t \<Rightarrow> whl_offset_t list \<Rightarrow> bool" where
  "live_chain wheel c =
     (if head (head_last wheel) = WHL_INVALID_OFFSET
      then last' (head_last wheel) = WHL_INVALID_OFFSET \<and> c = []
      else whl_chain wheel (head (head_last wheel)) c)"

text \<open>The length of the longest prefix of \<open>c\<close> whose slices are all \<open>RETURNED\<close>.\<close>

definition returned_prefix :: "whl_t \<Rightarrow> whl_offset_t list \<Rightarrow> nat" where
  "returned_prefix wheel c =
     length (takeWhile (\<lambda>off. state (buf wheel (whl_at_unchecked off)) = WHL_SLICE_RETURNED) c)"

text \<open>
  The footprint of a request as the specification words it: slice header plus requested
  bytes, rounded up to \<open>ALIGN\<close>, counted in \<open>ALIGN\<close> units. It is a natural number, so
  nothing wraps or is cut off.
\<close>

definition footprint_units :: "size_t \<Rightarrow> nat" where
  "footprint_units size' = (unat size' + 16 + 63) div 64"

text \<open>
  The history of a run of the eventfd layer, latest event first: a slice was shared
  after the last peek that returned \<open>WHL_INVALID_OFFSET\<close>, or with no such peek so far.
\<close>

fun shared_since_failed_peek :: "efd_event list \<Rightarrow> bool" where
  "shared_since_failed_peek [] = False"
| "shared_since_failed_peek (Shared offset # history) = True"
| "shared_since_failed_peek (Peeked offset # history) =
     (if offset = WHL_INVALID_OFFSET then False else shared_since_failed_peek history)"
| "shared_since_failed_peek (Made offset # history) = shared_since_failed_peek history"
| "shared_since_failed_peek (Returned r # history) = shared_since_failed_peek history"

text \<open>
  An allocation returned \<open>WHL_INVALID_OFFSET\<close> after the last call of
  \<open>whl_efd_return_slice\<close>, or with no such call so far.
\<close>

fun failed_make_since_return :: "efd_event list \<Rightarrow> bool" where
  "failed_make_since_return [] = False"
| "failed_make_since_return (Made offset # history) =
     (if offset = WHL_INVALID_OFFSET then True else failed_make_since_return history)"
| "failed_make_since_return (Returned r # history) = False"
| "failed_make_since_return (Shared offset # history) = failed_make_since_return history"
| "failed_make_since_return (Peeked offset # history) = failed_make_since_return history"

text \<open>The two flags, as the history determines them.\<close>

definition flags_follow :: "whl_efd_t \<Rightarrow> efd_event list \<Rightarrow> bool" where
  "flags_follow wheel history =
     (is_readable (atomic wheel) = (if shared_since_failed_peek history then 1 else 0) \<and>
      is_writable (atomic wheel) = (if failed_make_since_return history then 0 else 1))"

section \<open>The packed pair\<close>

declare whl_publish.simps [simp del]

lemma pair_u64_head: "(ucast (pair_u64 p) :: u32) = head p"
  unfolding pair_u64_def
  by (rule bit_word_eqI) (auto simp add: bit_simps dest: bit_imp_le_length)

lemma pair_u64_last: "(ucast (drop_bit 32 (pair_u64 p)) :: u32) = last' p"
  unfolding pair_u64_def
  by (rule bit_word_eqI) (auto simp add: bit_simps dest: bit_imp_le_length)

text \<open>The \<open>u64\<close> view is all ones exactly when both halves are.\<close>

lemma pair_u64_invalid_iff:
  "pair_u64 p = WHL_INVALID_OFFSET_PAIR \<longleftrightarrow>
     head p = WHL_INVALID_OFFSET \<and> last' p = WHL_INVALID_OFFSET"
proof
  assume all_ones: "pair_u64 p = WHL_INVALID_OFFSET_PAIR"
  have "head p = ucast (pair_u64 p)"
    by (simp add: pair_u64_head)
  moreover have "last' p = ucast (drop_bit 32 (pair_u64 p))"
    by (simp add: pair_u64_last)
  ultimately show "head p = WHL_INVALID_OFFSET \<and> last' p = WHL_INVALID_OFFSET"
    unfolding all_ones
    by (simp add: WHL_INVALID_OFFSET_PAIR_def WHL_INVALID_OFFSET_def UINT64_MAX_def
        UINT32_MAX_def)
next
  assume "head p = WHL_INVALID_OFFSET \<and> last' p = WHL_INVALID_OFFSET"
  then show "pair_u64 p = WHL_INVALID_OFFSET_PAIR"
    by (simp add: pair_u64_def WHL_INVALID_OFFSET_PAIR_def WHL_INVALID_OFFSET_def
        UINT64_MAX_def UINT32_MAX_def)
qed

text \<open>
  With no other process between the load of the pair and the loop, the first round of
  the publishing loop succeeds.
\<close>

lemma whl_publish_seq:
  "head_last wheel = pair \<Longrightarrow>
   whl_publish wheel pair offset =
     (let pair' = (if pair_u64 pair = WHL_INVALID_OFFSET_PAIR
                   then \<lparr>head = offset, last' = offset\<rparr>
                   else \<lparr>head = head pair, last' = offset\<rparr>)
      in (wheel\<lparr>head_last := pair'\<rparr>, [Store_head_last pair']))"
  by (subst whl_publish.simps) (simp add: cas_head_last_def Let_def)

lemma WHL_INVALID_OFFSET_minus1: "WHL_INVALID_OFFSET = - 1"
  by (simp add: WHL_INVALID_OFFSET_def UINT32_MAX_def)

text \<open>A remainder is never the invalid offset.\<close>

lemma mod_valid: "a \<noteq> 0 \<Longrightarrow> (x :: u32) mod a \<noteq> WHL_INVALID_OFFSET"
proof -
  assume "a \<noteq> 0"
  then have "x mod a < a"
    by (simp add: word_mod_less_divisor word_neq_0_conv)
  moreover have "a \<le> WHL_INVALID_OFFSET"
    by (simp add: WHL_INVALID_OFFSET_minus1)
  ultimately show ?thesis by auto
qed

section \<open>Facts about initialisation\<close>

lemma whl_init_bound_value: "whl_init_bound = 0xFFFFFFC0"
  by (simp add: whl_init_bound_def WHL_ALIGN_def UINT32_MAX_def)


text \<open>What \<open>whl_init\<close> refuses, and what it installs.\<close>

lemma whl_init_error_iff:
  "fst (whl_init wheel buf_size) \<noteq> 0 \<longleftrightarrow>
     buf_size < 128 \<or> buf_size mod 64 \<noteq> 0 \<or> buf_size \<ge> 0xFFFFFFC0"
  by (auto simp: whl_init_def whl_init_bound_value WHL_ALIGN_def)

lemma whl_init_success:
  assumes "fst (whl_init wheel buf_size) = 0"
  shows "unat (aligned_size (snd (whl_init wheel buf_size))) = (unat buf_size - 64) div 64 \<and>
         head_last (snd (whl_init wheel buf_size)) = whl_invalid_offset_pair \<and>
         buf (snd (whl_init wheel buf_size)) = buf wheel"
proof -
  from assms have bounds: "128 \<le> buf_size" "buf_size < 0xFFFFFFC0"
    by (auto simp: whl_init_def whl_init_bound_value WHL_ALIGN_def split: if_splits)
  then have "unat ((buf_size - 64) div 64) = (unat buf_size - 64) div 64"
    by (simp add: unat_div unat_sub word_le_nat_alt)
  moreover have "unat buf_size < 2 ^ 32"
    using bounds(2) by (simp add: word_less_nat_alt)
  ultimately have "unat (ucast ((buf_size - 64) div 64) :: u32) = (unat buf_size - 64) div 64"
    by (simp add: unsigned_ucast_eq take_bit_nat_eq_self)
  with assms show ?thesis
    by (auto simp: whl_init_def whl_init_bound_value WHL_ALIGN_def whl_invalid_offset_pair_def
        split: if_splits)
qed

text \<open>An initialised wheel has between 1 and \<open>2 ^ 26 - 3\<close> units.\<close>

lemma whl_init_capacity:
  assumes "whl_init wheel0 buf_size = (0, wheel)"
  shows "1 \<le> aligned_size wheel \<and> aligned_size wheel \<le> 0x3FFFFFD"
proof -
  from assms have ok: "fst (whl_init wheel0 buf_size) = 0" and w: "wheel = snd (whl_init wheel0 buf_size)"
    by simp_all
  from ok have bounds: "128 \<le> unat buf_size" "unat buf_size < 0xFFFFFFC0"
    by (auto simp: whl_init_def whl_init_bound_value WHL_ALIGN_def word_le_nat_alt
        word_less_nat_alt split: if_splits)
  from whl_init_success [OF ok] w
  have "unat (aligned_size wheel) = (unat buf_size - 64) div 64" by simp
  with bounds have "1 \<le> unat (aligned_size wheel) \<and> unat (aligned_size wheel) \<le> 0x3FFFFFD"
    by arith
  then show ?thesis
    by (simp add: word_le_nat_alt)
qed

text \<open>
  Claim C7. \<open>whl_init\<close> is to accept every multiple of 64 from 128 up to, but not
  including, \<open>64 * (2 ^ 32 - 1)\<close>. A region of \<open>2 ^ 32\<close> bytes is such a size, and
  \<open>whl_init\<close> refuses it: the bound of the source is computed in 32 bits and comes out
  as \<open>2 ^ 32 - 64\<close> (\<open>whl_init_bound_value\<close>).
\<close>

theorem whl_init_rejects_4GiB:
  "(128 :: size_t) \<le> 0x100000000 \<and>
   (0x100000000 :: size_t) mod 64 = 0 \<and>
   unat (0x100000000 :: size_t) < 64 * (2 ^ 32 - 1) \<and>
   whl_init wheel 0x100000000 = (- 1, wheel)"
  by (simp add: whl_init_def whl_init_bound_value WHL_ALIGN_def)

section \<open>Evaluation on concrete wheels\<close>

text \<open>
  The definitions that the simplifier unfolds to run the operations on a concrete wheel.
\<close>

lemmas eval_defs =
  whl_init_def whl_init_bound_value WHL_ALIGN_def zeroed_wheel_def zero_slice_def
  whl_step_def whl_make_slice_def whl_next_offset_aligned_def pair_u64_invalid_iff
  WHL_INVALID_OFFSET_def UINT32_MAX_def SIZE_MAX_def sizeof_whl_slice_t_def
  whl_alignment_padding_def whl_at_unchecked_def whl_backfill_def whl_size_in_wheel_def
  whl_place_slice_def whl_publish_seq whl_slice_buf_def Let_def
  whl_share_slice_def whl_set_state_def whl_next_shared_slice_def whl_return_slice_def
  whl_return_loop.simps whl_head_def whl_return_advance_def cas_head_last_def
  whl_invalid_offset_pair_def WHL_SLICE_READABLE_def WHL_SLICE_RETURNED_def

text \<open>The concrete wheels of four units are states of a run.\<close>

lemma wheel_320_three_reached:
  "whl_init zeroed_wheel 320 = (0, wheel_320) \<and>
   whl_run wheel_320
     [Make_slice 16, Make_slice 16, Make_slice 16,
      Share_slice 0, Share_slice 1, Share_slice 2, Return_slice 1]
     = Some (Inr wheel_320_three)"
  by (simp add: eval_defs wheel_320_def wheel_320_three_def word_le_nat_alt word_less_nat_alt
      fun_eq_iff)

section \<open>The pair invariant\<close>

lemma whl_return_advance_pair:
  assumes "whl_return_advance wheel (head_last wheel) = Inr wheel'"
    and "head (head_last wheel) \<noteq> WHL_INVALID_OFFSET"
    and "pair_ok wheel"
  shows "pair_ok wheel'"
  using assms
  by (auto simp: whl_return_advance_def cas_head_last_def Let_def pair_ok_def whl_invalid_offset_pair_def
      mod_valid split: if_splits)

lemma whl_return_loop_invariant:
  assumes run: "whl_return_loop wheel returns = Some (Inr (n, wheel'))"
    and start: "I wheel"
    and step: "\<And>w w'. I w \<Longrightarrow> head (head_last w) \<noteq> WHL_INVALID_OFFSET \<Longrightarrow>
                 whl_return_advance w (head_last w) = Inr w' \<Longrightarrow> I w'"
  shows "I wheel'"
proof -
  define P where
    "P = (\<lambda>w (r :: size_t) (y :: whl_fault + size_t \<times> whl_t).
            \<forall>n w'. y = Inr (n, w') \<longrightarrow> I w \<longrightarrow> I w')"
  have "P wheel returns (Inr (n, wheel'))"
  proof (rule whl_return_loop.raw_induct [OF _ run], goal_cases)
    case (1 loop w r y)
    show ?case
      unfolding P_def
    proof (intro allI impI)
      fix n w'
      assume y: "y = Inr (n, w')" and inv: "I w"
      show "I w'"
      proof (cases "head (head_last w) = WHL_INVALID_OFFSET")
        case True
        with 1(2) y inv show ?thesis by (simp add: Let_def)
      next
        case valid: False
        then have hd: "whl_head w = Some (whl_at_unchecked (head (head_last w)))"
          by (simp add: whl_head_def Let_def)
        show ?thesis
        proof (cases "state (buf w (whl_at_unchecked (head (head_last w)))) \<noteq> WHL_SLICE_RETURNED")
          case True
          with 1(2) y inv valid hd show ?thesis by (simp add: Let_def)
        next
          case False
          show ?thesis
          proof (cases "whl_return_advance w (head_last w)")
            case (Inl fault)
            with 1(2) y valid hd False show ?thesis by (simp add: Let_def)
          next
            case (Inr w2)
            with 1(2) valid hd False have "loop w2 (r + 1) = Some y" by (simp add: Let_def)
            then have "P w2 (r + 1) y" by (rule 1(1))
            moreover have "I w2" using step [OF inv valid Inr] .
            ultimately show ?thesis using y unfolding P_def by blast
          qed
        qed
      qed
    qed
  qed
  with start show ?thesis unfolding P_def by blast
qed

lemma whl_return_loop_pair:
  assumes "whl_return_loop wheel returns = Some (Inr (n, wheel'))" and "pair_ok wheel"
  shows "pair_ok wheel'"
  using assms(1) assms(2) by (rule whl_return_loop_invariant) (rule whl_return_advance_pair)

lemma whl_make_slice_pair:
  assumes "whl_make_slice wheel bufp size' = Inr (offset, wheel', bufp', stores)" and "pair_ok wheel"
  shows "pair_ok wheel'"
  using assms
  by (auto simp: whl_make_slice_def whl_place_slice_def Let_def whl_publish_seq whl_backfill_def
      pair_ok_def pair_u64_invalid_iff
      split: if_splits sum.splits prod.splits)

lemma whl_init_pair: "whl_init wheel0 buf_size = (0, wheel) \<Longrightarrow> pair_ok wheel"
  by (auto simp: whl_init_def pair_ok_def split: if_splits)

lemma whl_next_shared_slice_wheel:
  "fst (snd (whl_next_shared_slice wheel bufp size')) = wheel"
  by (simp add: whl_next_shared_slice_def Let_def)

lemma whl_step_pair:
  assumes "whl_step wheel op = Some (Inr wheel')" and "pair_ok wheel"
  shows "pair_ok wheel'"
proof (cases op)
  case (Make_slice size')
  with assms show ?thesis
    by (auto simp: whl_step_def split: sum.splits prod.splits dest: whl_make_slice_pair)
next
  case (Share_slice offset)
  with assms show ?thesis
    by (auto simp: whl_step_def whl_share_slice_def whl_set_state_def pair_ok_def Let_def)
next
  case Next_shared_slice
  with assms show ?thesis
    by (simp add: whl_step_def whl_next_shared_slice_wheel)
next
  case (Return_slice off)
  with assms obtain r where "whl_return_slice wheel off = Some (Inr (r, wheel'))"
    by (auto simp: whl_step_def split: option.splits sum.splits prod.splits)
  then show ?thesis
    using assms(2)
    by (auto simp: whl_return_slice_def whl_set_state_def Let_def pair_ok_def split: if_splits
        dest!: whl_return_loop_pair [unfolded pair_ok_def])
qed

lemma whl_run_pair:
  "whl_run wheel ops = Some (Inr wheel') \<Longrightarrow> pair_ok wheel \<Longrightarrow> pair_ok wheel'"
proof (induction ops arbitrary: wheel)
  case Nil
  then show ?case by simp
next
  case (Cons op ops)
  then show ?case
    by (auto split: option.splits sum.splits dest: whl_step_pair)
qed

text \<open>
  Claim C3. In every state reached from a freshly initialised wheel by any sequence of
  \<open>whl_make_slice\<close>, \<open>whl_share_slice\<close>, \<open>whl_next_shared_slice\<close> and
  \<open>whl_return_slice\<close> calls, with any arguments, \<open>head\<close> is \<open>WHL_INVALID_OFFSET\<close>
  if and only if \<open>last\<close> is. The calls are taken one after another.
\<close>

theorem whl_pair_invariant:
  assumes "whl_init wheel0 buf_size = (0, wheel)"
    and "whl_run wheel ops = Some (Inr wheel')"
  shows "(head (head_last wheel') = WHL_INVALID_OFFSET) =
         (last' (head_last wheel') = WHL_INVALID_OFFSET)"
  using whl_run_pair [OF assms(2) whl_init_pair [OF assms(1)]] by (simp add: pair_ok_def)

text \<open>
  A run that empties the wheel and fills it again: allocate, share, peek, return,
  allocate.
\<close>

theorem whl_pair_invariant_witness:
  "whl_init zeroed_wheel 128 = (0, wheel_128) \<and>
   whl_run wheel_128
     [Make_slice 16, Share_slice 0, Next_shared_slice, Return_slice 0, Make_slice 16]
     = Some (Inr wheel_128_one_slice) \<and>
   (head (head_last wheel_128_one_slice) = WHL_INVALID_OFFSET) =
   (last' (head_last wheel_128_one_slice) = WHL_INVALID_OFFSET)"
  using whl_pair_invariant [of zeroed_wheel 128 wheel_128
      "[Make_slice 16, Share_slice 0, Next_shared_slice, Return_slice 0, Make_slice 16]"
      wheel_128_one_slice]
  by (simp add: eval_defs wheel_128_def wheel_128_one_slice_def)

section \<open>Allocation\<close>

lemma WHL_INVALID_OFFSET_nonzero: "WHL_INVALID_OFFSET \<noteq> 0" "0 \<noteq> WHL_INVALID_OFFSET"
  by (simp_all add: WHL_INVALID_OFFSET_def UINT32_MAX_def)

lemma at_unchecked_zero: "whl_at_unchecked 0 = 0"
  by (simp add: whl_at_unchecked_def)

lemma at_unchecked_inj:
  assumes "unat a < 2 ^ 26" "unat b < 2 ^ 26" "whl_at_unchecked a = whl_at_unchecked b"
  shows "a = b"
proof -
  have "unat (64 * a) = 64 * unat a" using assms(1) by (simp add: unat_word_ariths)
  moreover have "unat (64 * b) = 64 * unat b" using assms(2) by (simp add: unat_word_ariths)
  ultimately have "unat a = unat b" using assms(3) by (simp add: whl_at_unchecked_def WHL_ALIGN_def)
  then show ?thesis by (simp add: word_unat_eq_iff)
qed

lemma wrap_selection:
  assumes sel: "whl_next_offset_aligned wheel need (head_last wheel) = Inr 0"
    and valid: "head (head_last wheel) \<noteq> WHL_INVALID_OFFSET" "last' (head_last wheel) \<noteq> WHL_INVALID_OFFSET"
    and inside: "unat (last' (head_last wheel)) +
                 unat (aligned_size_in_wheel (buf wheel (whl_at_unchecked (last' (head_last wheel)))))
                   \<le> unat (aligned_size wheel)"
    and units: "aligned_size_in_wheel (buf wheel (whl_at_unchecked (last' (head_last wheel)))) \<noteq> 0"
  shows "last' (head_last wheel) \<noteq> 0 \<and> head (head_last wheel) \<le> last' (head_last wheel) \<and>
         need \<le> head (head_last wheel)"
proof -
  let ?l = "last' (head_last wheel)" and ?h = "head (head_last wheel)"
  let ?u = "aligned_size_in_wheel (buf wheel (whl_at_unchecked ?l))"
  have le: "unat (?l + ?u) = unat ?l + unat ?u"
  proof -
    have "unat (aligned_size wheel) < 2 ^ 32"
      using unsigned_less [of "aligned_size wheel"] by simp
    with inside have "unat ?l + unat ?u < 2 ^ LENGTH(32)" by simp
    then show ?thesis by (simp only: unat_add_lem)
  qed
  have "unat ?u \<noteq> 0" using units by (simp add: unat_eq_0)
  with le have ne: "?l + ?u \<noteq> 0" by (metis add_is_0 unat_0)
  from sel valid ne have w: "\<not> ?l < ?h" "need \<le> ?h" "\<not> need \<le> aligned_size wheel - (?l + ?u)"
    by (auto simp: whl_next_offset_aligned_def pair_u64_invalid_iff Let_def
        WHL_INVALID_OFFSET_nonzero split: if_splits)
  from w(3) have "need \<noteq> 0" by auto
  with w(2) have "?h \<noteq> 0" by auto
  with w(1) have "?l \<noteq> 0" by (auto simp: word_neq_0_conv)
  with w show ?thesis by auto
qed

lemma padding_nat: "((x::nat) + (64 - x mod 64) mod 64) mod 64 = 0"
proof (cases "x mod 64 = 0")
  case True
  then show ?thesis by simp
next
  case False
  have m: "x mod 64 < 64" by simp
  have d: "64 * (x div 64) + x mod 64 = x" by (rule mult_div_mod_eq)
  from False m have "(64 - x mod 64) mod 64 = 64 - x mod 64" by simp
  moreover from m d have "x + (64 - x mod 64) = 64 * (x div 64 + 1)" by arith
  ultimately show ?thesis by simp
qed

lemma unat_whl_alignment_padding:
  "unat (whl_alignment_padding s) = (64 - unat s mod 64) mod 64"
  by (simp add: whl_alignment_padding_def WHL_ALIGN_def unat_mod unat_sub word_le_nat_alt)

lemma whl_size_in_wheel_aligned: "whl_size_in_wheel size' mod WHL_ALIGN = 0"
proof -
  define s where "s = sizeof_whl_slice_t + size'"
  have "(64::nat) dvd 2 ^ 64" by simp
  then have "(unat s + unat (whl_alignment_padding s)) mod 2 ^ 64 mod 64 =
             (unat s + unat (whl_alignment_padding s)) mod 64"
    by (rule mod_mod_cancel)
  then have "unat (s + whl_alignment_padding s) mod 64 =
             (unat s + (64 - unat s mod 64) mod 64) mod 64"
    by (simp add: unat_word_ariths(1) unat_whl_alignment_padding)
  then have "unat ((s + whl_alignment_padding s) mod 64) = 0"
    by (simp add: unat_mod padding_nat)
  then show ?thesis
    by (simp add: whl_size_in_wheel_def Let_def s_def WHL_ALIGN_def unat_eq_0)
qed

lemma whl_place_slice_offset:
  "fst (whl_place_slice wheel pair offset size' need) = offset"
  by (simp add: whl_place_slice_def Let_def split: prod.splits)

lemma whl_make_slice_placed:
  assumes "whl_make_slice wheel bufp size' = Inr (offset, wheel', bufp', stores)"
    and "offset \<noteq> WHL_INVALID_OFFSET"
  shows "whl_next_offset_aligned wheel (ucast (whl_size_in_wheel size' div WHL_ALIGN))
           (head_last wheel) = Inr offset \<and>
         whl_place_slice wheel (head_last wheel) offset size'
           (ucast (whl_size_in_wheel size' div WHL_ALIGN)) = (offset, wheel', bufp', stores)"
proof -
  let ?need = "ucast (whl_size_in_wheel size' div WHL_ALIGN) :: whl_offset_t"
  from assms obtain x where
    sel: "whl_next_offset_aligned wheel ?need (head_last wheel) = Inr x"
    and placed: "whl_place_slice wheel (head_last wheel) x size' ?need =
                   (offset, wheel', bufp', stores)"
    by (auto simp: whl_make_slice_def Let_def split: if_splits sum.splits)
  from placed have "fst (whl_place_slice wheel (head_last wheel) x size' ?need) = offset"
    by simp
  then have "x = offset"
    by (simp add: whl_place_slice_offset)
  with sel placed show ?thesis by simp
qed

lemma whl_place_slice_wrap:
  assumes "last' pair \<noteq> WHL_INVALID_OFFSET" "head pair \<noteq> WHL_INVALID_OFFSET"
    and "head_last wheel = pair"
  shows "whl_place_slice wheel pair 0 size' need =
     (0,
      wheel\<lparr>buf := (buf wheel)
               (whl_at_unchecked (last' pair) := (buf wheel (whl_at_unchecked (last' pair)))
                   \<lparr>aligned_size_in_wheel := aligned_size wheel - last' pair\<rparr>,
                0 := \<lparr>trailing_user_size = size', aligned_size_in_wheel = need, state = 0\<rparr>),
            head_last := \<lparr>head = head pair, last' = 0\<rparr>\<rparr>,
      whl_slice_buf 0,
      [Store_aligned_size_in_wheel (whl_at_unchecked (last' pair)) (aligned_size wheel - last' pair),
       Store_slice 0 \<lparr>trailing_user_size = size', aligned_size_in_wheel = need, state = 0\<rparr>,
       Store_bufp (whl_slice_buf 0),
       Store_head_last \<lparr>head = head pair, last' = 0\<rparr>])"
  using assms
  by (simp add: whl_place_slice_def whl_backfill_def Let_def at_unchecked_zero whl_publish_seq
      pair_u64_invalid_iff)

text \<open>
  Claim C2. Whenever \<open>whl_make_slice\<close> selects offset 0 while the loaded pair is valid,
  the first store it issues is the back-fill of the last slice with
  \<open>aligned_size - last\<close>; the header of the new slice, the caller's pointer and the pair
  \<open>(head, 0)\<close> follow, in this order. On an initialised wheel (at most \<open>2 ^ 26 - 3\<close>
  units, as \<open>whl_init\<close> leaves it) whose last slice is not empty and ends inside the
  wheel, the back-fill does not shrink the slice, and in the wheel the call leaves,
  stepping from the old last slice by its units modulo \<open>aligned_size\<close> lands on the new
  last slice.
\<close>

theorem whl_make_slice_backfill:
  assumes made: "whl_make_slice wheel bufp size' = Inr (0, wheel', bufp', stores)"
    and valid: "head (head_last wheel) \<noteq> WHL_INVALID_OFFSET"
      "last' (head_last wheel) \<noteq> WHL_INVALID_OFFSET"
  shows "stores =
           [Store_aligned_size_in_wheel (whl_at_unchecked (last' (head_last wheel)))
              (aligned_size wheel - last' (head_last wheel)),
            Store_slice (whl_at_unchecked 0) (buf wheel' (whl_at_unchecked 0)),
            Store_bufp bufp',
            Store_head_last (head_last wheel')] \<and>
         head_last wheel' = \<lparr>head = head (head_last wheel), last' = 0\<rparr> \<and>
         (aligned_size wheel \<le> 0x3FFFFFD \<and>
          unat (last' (head_last wheel)) +
            unat (aligned_size_in_wheel
                   (buf wheel (whl_at_unchecked (last' (head_last wheel)))))
            \<le> unat (aligned_size wheel) \<and>
          aligned_size_in_wheel (buf wheel (whl_at_unchecked (last' (head_last wheel)))) \<noteq> 0
          \<longrightarrow>
            aligned_size_in_wheel (buf wheel' (whl_at_unchecked (last' (head_last wheel)))) =
              aligned_size wheel - last' (head_last wheel) \<and>
            aligned_size_in_wheel (buf wheel (whl_at_unchecked (last' (head_last wheel))))
              \<le> aligned_size wheel - last' (head_last wheel) \<and>
            (last' (head_last wheel) +
               aligned_size_in_wheel (buf wheel' (whl_at_unchecked (last' (head_last wheel)))))
              mod aligned_size wheel' = last' (head_last wheel'))"
proof -
  let ?l = "last' (head_last wheel)" and ?h = "head (head_last wheel)"
  let ?u = "aligned_size_in_wheel (buf wheel (whl_at_unchecked ?l))"
  let ?need = "ucast (whl_size_in_wheel size' div WHL_ALIGN) :: whl_offset_t"
  from whl_make_slice_placed [OF made] have
    sel: "whl_next_offset_aligned wheel ?need (head_last wheel) = Inr 0"
    and placed: "whl_place_slice wheel (head_last wheel) 0 size' ?need = (0, wheel', bufp', stores)"
    by (simp_all add: WHL_INVALID_OFFSET_nonzero)
  let ?header = "\<lparr>trailing_user_size = size', aligned_size_in_wheel = ?need, state = 0\<rparr>"
  have "(0, wheel', bufp', stores) = whl_place_slice wheel (head_last wheel) 0 size' ?need"
    using placed by simp
  also note whl_place_slice_wrap [OF valid(2) valid(1) refl, of size' ?need]
  finally have left: "wheel' =
      wheel\<lparr>buf := (buf wheel)
               (whl_at_unchecked ?l := (buf wheel (whl_at_unchecked ?l))
                   \<lparr>aligned_size_in_wheel := aligned_size wheel - ?l\<rparr>,
                0 := \<lparr>trailing_user_size = size', aligned_size_in_wheel = ?need, state = 0\<rparr>),
            head_last := \<lparr>head = ?h, last' = 0\<rparr>\<rparr>"
    and order: "stores =
      [Store_aligned_size_in_wheel (whl_at_unchecked ?l) (aligned_size wheel - ?l),
       Store_slice 0 \<lparr>trailing_user_size = size', aligned_size_in_wheel = ?need, state = 0\<rparr>,
       Store_bufp (whl_slice_buf 0),
       Store_head_last \<lparr>head = ?h, last' = 0\<rparr>]"
    and ptr: "bufp' = whl_slice_buf 0"
    by blast+
  have first: "stores =
           [Store_aligned_size_in_wheel (whl_at_unchecked ?l) (aligned_size wheel - ?l),
            Store_slice (whl_at_unchecked 0) (buf wheel' (whl_at_unchecked 0)),
            Store_bufp bufp',
            Store_head_last (head_last wheel')] \<and>
         head_last wheel' = \<lparr>head = ?h, last' = 0\<rparr>"
    by (simp add: left order ptr at_unchecked_zero)
  have second:
    "aligned_size_in_wheel (buf wheel' (whl_at_unchecked ?l)) = aligned_size wheel - ?l \<and>
     ?u \<le> aligned_size wheel - ?l \<and>
     (?l + aligned_size_in_wheel (buf wheel' (whl_at_unchecked ?l))) mod aligned_size wheel' =
       last' (head_last wheel')"
    if capacity: "aligned_size wheel \<le> 0x3FFFFFD"
      and inside: "unat ?l + unat ?u \<le> unat (aligned_size wheel)"
      and units: "?u \<noteq> 0"
  proof -
    from wrap_selection [OF sel valid inside units]
    have l0: "?l \<noteq> 0" by simp
    have "unat ?l \<le> unat (aligned_size wheel)" using inside by simp
    moreover have "unat (aligned_size wheel) \<le> 0x3FFFFFD"
      using capacity by (simp add: word_le_nat_alt)
    ultimately have "unat ?l < 2 ^ 26" by simp
    then have slot: "whl_at_unchecked ?l \<noteq> 0"
      using at_unchecked_inj [of ?l 0] l0 by (auto simp: at_unchecked_zero)
    have le: "?l \<le> aligned_size wheel"
      using inside by (simp add: word_le_nat_alt)
    then have "unat (aligned_size wheel - ?l) = unat (aligned_size wheel) - unat ?l"
      by (simp add: unat_sub)
    with inside have grown: "?u \<le> aligned_size wheel - ?l"
      by (simp add: word_le_nat_alt)
    have asz: "aligned_size wheel \<noteq> 0"
      using le l0 by auto
    from slot grown asz show ?thesis
      by (simp add: left)
  qed
  from first second show ?thesis by blast
qed

text \<open>The wrap on \<open>wheel_320_tail\<close>: the slice at offset 2 grows from one unit to two.\<close>

theorem whl_make_slice_backfill_witness:
  "head (head_last wheel_320_tail) \<noteq> WHL_INVALID_OFFSET \<and>
   last' (head_last wheel_320_tail) \<noteq> WHL_INVALID_OFFSET \<and>
   aligned_size wheel_320_tail \<le> 0x3FFFFFD \<and>
   unat (last' (head_last wheel_320_tail)) +
     unat (aligned_size_in_wheel
            (buf wheel_320_tail (whl_at_unchecked (last' (head_last wheel_320_tail)))))
     \<le> unat (aligned_size wheel_320_tail) \<and>
   whl_make_slice wheel_320_tail 0 49 =
     Inr (0, wheel_320_wrapped, 16,
          [Store_aligned_size_in_wheel 128 2,
           Store_slice 0 \<lparr>trailing_user_size = 49, aligned_size_in_wheel = 2, state = 0\<rparr>,
           Store_bufp 16,
           Store_head_last \<lparr>head = 2, last' = 0\<rparr>]) \<and>
   aligned_size_in_wheel (buf wheel_320_tail (whl_at_unchecked 2)) = 1 \<and>
   aligned_size_in_wheel (buf wheel_320_wrapped (whl_at_unchecked 2)) = 2 \<and>
   (2 + aligned_size_in_wheel (buf wheel_320_wrapped (whl_at_unchecked 2)))
     mod aligned_size wheel_320_wrapped = last' (head_last wheel_320_wrapped)"
  using whl_make_slice_backfill [of wheel_320_tail 0 49 wheel_320_wrapped 16
      "[Store_aligned_size_in_wheel 128 2,
        Store_slice 0 \<lparr>trailing_user_size = 49, aligned_size_in_wheel = 2, state = 0\<rparr>,
        Store_bufp 16,
        Store_head_last \<lparr>head = 2, last' = 0\<rparr>]"]
  by (simp add: eval_defs wheel_320_tail_def wheel_320_wrapped_def word_le_nat_alt
      word_less_nat_alt fun_eq_iff)

lemma round_up_nat: "(x::nat) + (64 - x mod 64) mod 64 = 64 * ((x + 63) div 64)"
proof (cases "x mod 64 = 0")
  case True
  then have "64 dvd x" by (simp add: dvd_eq_mod_eq_0)
  then obtain q where "x = 64 * q" by (auto elim: dvdE)
  then show ?thesis by simp
next
  case False
  have m: "x mod 64 < 64" by simp
  have d: "64 * (x div 64) + x mod 64 = x" by (rule mult_div_mod_eq)
  from False m have "(64 - x mod 64) mod 64 = 64 - x mod 64" by simp
  moreover from m d have "x + (64 - x mod 64) = 64 * (x div 64 + 1)" by arith
  moreover have "(x + 63) div 64 = x div 64 + 1"
  proof -
    from False m d have "x + 63 = 64 * (x div 64 + 1) + (x mod 64 - 1)" by arith
    moreover from m have "x mod 64 - 1 < 64" by arith
    ultimately show ?thesis by (metis div_mult_self2 div_less add.commute add_0 zero_neq_numeral)
  qed
  ultimately show ?thesis by simp
qed

lemma unat_whl_size_in_wheel:
  assumes "footprint_units size' < 2 ^ 32"
  shows "unat (whl_size_in_wheel size') = 64 * footprint_units size'"
proof -
  define s where "s = sizeof_whl_slice_t + size'"
  from assms have small: "unat size' + 79 < 2 ^ 38 + 64"
    by (simp add: footprint_units_def) 
  then have s: "unat s = unat size' + 16"
    by (simp add: s_def sizeof_whl_slice_t_def unat_word_ariths)
  have p: "unat (whl_alignment_padding s) = (64 - unat s mod 64) mod 64"
    by (rule unat_whl_alignment_padding)
  then have "unat (whl_alignment_padding s) < 64" by simp
  with s small have "unat (s + whl_alignment_padding s) = unat s + unat (whl_alignment_padding s)"
    by (simp add: unat_word_ariths)
  with p s show ?thesis
    by (simp add: whl_size_in_wheel_def Let_def s_def [symmetric] round_up_nat
        footprint_units_def add.commute)
qed

lemma whl_units_footprint:
  assumes "footprint_units size' < 2 ^ 32"
  shows "(ucast (whl_size_in_wheel size' div WHL_ALIGN) :: whl_offset_t) =
           of_nat (footprint_units size')"
proof -
  have "unat (whl_size_in_wheel size' div 64) = footprint_units size'"
    by (simp add: unat_div unat_whl_size_in_wheel [OF assms])
  moreover have "unat (of_nat (footprint_units size') :: size_t) = footprint_units size'"
    using assms by (simp add: unat_of_nat)
  ultimately have "whl_size_in_wheel size' div 64 = of_nat (footprint_units size')"
    by (simp add: word_unat_eq_iff)
  moreover have "(ucast (of_nat (footprint_units size') :: size_t) :: whl_offset_t) =
                 of_nat (footprint_units size')"
    using assms
    by (simp add: word_unat_eq_iff unsigned_ucast_eq unat_of_nat take_bit_nat_eq_self)
  ultimately show ?thesis
    by (simp add: WHL_ALIGN_def)
qed

text \<open>
  A request whose footprint has fewer than \<open>2 ^ 32\<close> units is placed by
  \<open>__whl_next_offset_aligned\<close> applied to that footprint and the loaded pair.
\<close>

lemma whl_make_slice_selects:
  assumes "footprint_units size' < 2 ^ 32"
  shows "map_sum id fst (whl_make_slice wheel bufp size') =
           whl_next_offset_aligned wheel (of_nat (footprint_units size')) (head_last wheel)"
proof -
  from assms have "unat size' < 2 ^ 38"
    by (simp add: footprint_units_def)
  then have "\<not> size' > SIZE_MAX - sizeof_whl_slice_t"
    by (simp add: SIZE_MAX_def sizeof_whl_slice_t_def word_less_nat_alt)
  then show ?thesis
    by (simp add: whl_make_slice_def Let_def whl_size_in_wheel_aligned
        whl_units_footprint [OF assms] whl_place_slice_offset split: sum.splits)
qed

text \<open>
  Claim C1. A request of \<open>2 ^ 38 - 16\<close> bytes has a footprint of \<open>2 ^ 32\<close> units. On the
  empty wheel of one unit the policy of the claim answers \<open>WHL_INVALID_OFFSET\<close>, since
  the footprint exceeds \<open>aligned_size\<close>. \<open>whl_make_slice\<close> returns offset 0: the
  footprint is cut down to the 32 bits of \<open>whl_offset_t\<close>, which leaves zero units.
\<close>

theorem whl_make_slice_oversized_request:
  "footprint_units 0x3FFFFFFFF0 = 2 ^ 32 \<and>
   unat (aligned_size wheel_128) = 1 \<and>
   head_last wheel_128 = whl_invalid_offset_pair \<and>
   map_sum id fst (whl_make_slice wheel_128 bufp 0x3FFFFFFFF0) = Inr 0"
  by (simp add: footprint_units_def eval_defs wheel_128_def word_le_nat_alt)

text \<open>The slice header that call writes: all the requested bytes, in zero units.\<close>

lemma whl_make_slice_oversized_header:
  "map_sum id (\<lambda>r. buf (fst (snd r)) 0) (whl_make_slice wheel_128 bufp 0x3FFFFFFFF0) =
     Inr \<lparr>trailing_user_size = 0x3FFFFFFFF0, aligned_size_in_wheel = 0, state = 0\<rparr>"
  by (simp add: eval_defs wheel_128_def word_le_nat_alt)

text \<open>
  The guard of \<open>whl_make_slice\<close> keeps \<open>sizeof(whl_slice_t) + size\<close> from wrapping, not
  the padding added next: the largest size that passes the guard wraps to zero units too.
\<close>

lemma whl_make_slice_padding_overflow:
  "map_sum id fst (whl_make_slice wheel_128 bufp 0xFFFFFFFFFFFFFFEF) = Inr 0"
  by (simp add: eval_defs wheel_128_def)

section \<open>Peeking\<close>

text \<open>
  Claim C5. \<open>whl_next_shared_slice\<close> returns \<open>WHL_INVALID_OFFSET\<close>, and leaves \<open>*bufp\<close>
  and \<open>*size\<close> alone, exactly when \<open>head\<close> is invalid or the head slice is not
  \<open>READABLE\<close>; otherwise it returns \<open>head\<close> with the payload pointer and
  \<open>trailing_user_size\<close> of the head slice. It never changes the wheel, and a second call
  right after the first returns what the first returned.
\<close>

theorem whl_next_shared_slice_peek:
  "whl_next_shared_slice wheel bufp size' =
     (if head (head_last wheel) = WHL_INVALID_OFFSET \<or>
         state (buf wheel (whl_at_unchecked (head (head_last wheel)))) \<noteq> WHL_SLICE_READABLE
      then (WHL_INVALID_OFFSET, wheel, bufp, size')
      else (head (head_last wheel), wheel,
            whl_slice_buf (whl_at_unchecked (head (head_last wheel))),
            trailing_user_size (buf wheel (whl_at_unchecked (head (head_last wheel)))))) \<and>
   (fst (whl_next_shared_slice wheel bufp size') = WHL_INVALID_OFFSET) =
     (head (head_last wheel) = WHL_INVALID_OFFSET \<or>
      state (buf wheel (whl_at_unchecked (head (head_last wheel)))) \<noteq> WHL_SLICE_READABLE) \<and>
   fst (snd (whl_next_shared_slice wheel bufp size')) = wheel \<and>
   (case whl_next_shared_slice wheel bufp size' of
      (offset, wheel', bufp', size'') \<Rightarrow> whl_next_shared_slice wheel' bufp' size'') =
     whl_next_shared_slice wheel bufp size'"
  by (simp add: whl_next_shared_slice_def Let_def)

text \<open>The shared slice of 16 bytes at offset 0: its payload starts 16 bytes into the buffer.\<close>

theorem whl_next_shared_slice_peek_witness:
  "whl_next_shared_slice (whl_share_slice wheel_128_one_slice 0) 0 0 =
     (0, whl_share_slice wheel_128_one_slice 0, 16, 16) \<and>
   whl_next_shared_slice (whl_share_slice wheel_128_one_slice 0) 16 16 =
     (0, whl_share_slice wheel_128_one_slice 0, 16, 16) \<and>
   whl_next_shared_slice wheel_128_one_slice 0 0 =
     (WHL_INVALID_OFFSET, wheel_128_one_slice, 0, 0)"
  using whl_next_shared_slice_peek [of "whl_share_slice wheel_128_one_slice 0" 0 0]
    whl_next_shared_slice_peek [of wheel_128_one_slice 0 0]
  by (simp add: eval_defs wheel_128_one_slice_def)

section \<open>Returning\<close>

lemma returned_prefix_head_update [simp]:
  "returned_prefix (wheel\<lparr>head_last := p\<rparr>) c = returned_prefix wheel c"
  by (simp add: returned_prefix_def)

lemma whl_return_loop_chain_gen:
  assumes "whl_chain w0 h c"
    and "buf wheel = buf w0" "aligned_size wheel = aligned_size w0"
    and "last' (head_last wheel) = last' (head_last w0)"
    and "head (head_last wheel) = h" "h \<noteq> WHL_INVALID_OFFSET"
    and "aligned_size w0 \<noteq> 0"
  shows "whl_return_loop wheel n =
           Some (Inr (n + of_nat (returned_prefix w0 c),
                      wheel\<lparr>head_last :=
                        (if returned_prefix w0 c = length c then whl_invalid_offset_pair
                         else (head_last wheel)\<lparr>head := c ! returned_prefix w0 c\<rparr>)\<rparr>))"
  using assms
proof (induction w0 h c arbitrary: wheel n rule: whl_chain.induct)
  case (1 w0 h)
  then show ?case by simp
next
  case (2 w0 h x)
  then have x: "x = h" "h = last' (head_last wheel)" by simp_all
  show ?case
  proof (cases "state (buf w0 (whl_at_unchecked h)) = WHL_SLICE_RETURNED")
    case True
    have "whl_return_loop (wheel\<lparr>head_last := whl_invalid_offset_pair\<rparr>) (n + 1) =
          Some (Inr (n + 1, wheel\<lparr>head_last := whl_invalid_offset_pair\<rparr>))"
      by (subst whl_return_loop.simps) (simp add: whl_invalid_offset_pair_def)
    with True 2 x show ?thesis
      by (subst whl_return_loop.simps)
        (simp add: whl_head_def returned_prefix_def whl_return_advance_def cas_head_last_def)
  next
    case False
    with 2 x show ?thesis
      by (subst whl_return_loop.simps) (simp add: whl_head_def returned_prefix_def)
  qed
next
  case (3 w0 h x y ys)
  then have x: "x = h" "h \<noteq> last' (head_last wheel)" by simp_all
  let ?h' = "(h + aligned_size_in_wheel (buf w0 (whl_at_unchecked h))) mod aligned_size w0"
  let ?w' = "wheel\<lparr>head_last := (head_last wheel)\<lparr>head := ?h'\<rparr>\<rparr>"
  from 3(2) have chain: "whl_chain w0 ?h' (y # ys)" by simp
  show ?case
  proof (cases "state (buf w0 (whl_at_unchecked h)) = WHL_SLICE_RETURNED")
    case True
    have "?h' \<noteq> WHL_INVALID_OFFSET" using 3(8) by (rule mod_valid)
    then have IH: "whl_return_loop ?w' (n + 1) =
           Some (Inr (n + 1 + of_nat (returned_prefix w0 (y # ys)),
                      ?w'\<lparr>head_last :=
                        (if returned_prefix w0 (y # ys) = length (y # ys) then whl_invalid_offset_pair
                         else (head_last ?w')\<lparr>head := (y # ys) ! returned_prefix w0 (y # ys)\<rparr>)\<rparr>))"
      using 3(3,4,5,8) by (intro 3(1) [OF chain]) simp_all
    have k: "returned_prefix w0 (x # y # ys) = Suc (returned_prefix w0 (y # ys))"
      using True x by (simp add: returned_prefix_def)
    have adv: "whl_return_advance wheel (head_last wheel) = Inr ?w'"
      using x 3(3,4,6,8) by (simp add: whl_return_advance_def Let_def)
    show ?thesis
      apply (subst whl_return_loop.simps)
      using True 3(3,6,7) adv IH k
      apply (simp add: whl_head_def Let_def add.assoc)
      done
  next
    case False
    with 3 x show ?thesis
      by (subst whl_return_loop.simps) (simp add: whl_head_def returned_prefix_def)
  qed
qed


lemma whl_chain_cong:
  assumes "\<And>a. aligned_size_in_wheel (buf w1 a) = aligned_size_in_wheel (buf w2 a)"
    and "aligned_size w1 = aligned_size w2"
    and "last' (head_last w1) = last' (head_last w2)"
  shows "whl_chain w1 h c = whl_chain w2 h c"
  using assms by (induction w1 h c rule: whl_chain.induct) simp_all

lemma live_chain_set_state:
  "live_chain (whl_set_state wheel off v) c = live_chain wheel c"
proof -
  have "whl_chain (whl_set_state wheel off v) h c = whl_chain wheel h c" for h
    by (rule whl_chain_cong) (simp_all add: whl_set_state_def Let_def)
  then show ?thesis by (simp add: live_chain_def whl_set_state_def Let_def)
qed

lemma whl_set_state_same:
  "state (buf wheel (whl_at_unchecked off)) = v \<Longrightarrow> whl_set_state wheel off v = wheel"
  by (auto simp: whl_set_state_def Let_def)

text \<open>
  Claim C4. On a wheel whose live slices form the chain \<open>c\<close>, \<open>whl_return_slice\<close>
  returns. When the slice at \<open>off\<close> was \<open>RETURNED\<close> already it returns 0 and changes
  nothing. Otherwise it marks the slice \<open>RETURNED\<close> and returns the length \<open>k\<close> of the
  longest prefix of the chain whose slices are all \<open>RETURNED\<close>; it leaves the invalid
  pair when that is the whole chain, and else \<open>head\<close> at the first slice of the chain
  that is not \<open>RETURNED\<close>, with \<open>last\<close> as it was.
\<close>

theorem whl_return_slice_reclaims:
  assumes chain: "live_chain wheel c" and size: "aligned_size wheel \<noteq> 0"
  shows "whl_return_slice wheel off =
           (if state (buf wheel (whl_at_unchecked off)) = WHL_SLICE_RETURNED
            then Some (Inr (0, wheel))
            else
              (let marked = whl_set_state wheel off WHL_SLICE_RETURNED;
                   k = returned_prefix marked c
               in Some (Inr (of_nat k,
                    marked\<lparr>head_last :=
                      (if k = length c then whl_invalid_offset_pair
                       else (head_last wheel)\<lparr>head := c ! k\<rparr>)\<rparr>))))"
proof (cases "state (buf wheel (whl_at_unchecked off)) = WHL_SLICE_RETURNED")
  case True
  then show ?thesis
    by (simp add: whl_return_slice_def Let_def whl_set_state_same)
next
  case False
  let ?m = "whl_set_state wheel off WHL_SLICE_RETURNED"
  have m: "live_chain ?m c" using chain by (simp add: live_chain_set_state)
  have pair: "head_last ?m = head_last wheel" "aligned_size ?m = aligned_size wheel"
    by (simp_all add: whl_set_state_def Let_def)
  show ?thesis
  proof (cases "head (head_last wheel) = WHL_INVALID_OFFSET")
    case True
    with m pair have "c = []" by (simp add: live_chain_def)
    moreover have "whl_return_loop ?m 0 = Some (Inr (0, ?m))"
      using True pair by (subst whl_return_loop.simps) simp
    moreover have "?m\<lparr>head_last := whl_invalid_offset_pair\<rparr> = ?m"
      using True pair chain
      by (simp add: live_chain_def whl_invalid_offset_pair_def whl_set_state_def Let_def)
    ultimately show ?thesis
      using False by (simp add: whl_return_slice_def Let_def returned_prefix_def)
  next
    case valid: False
    with m pair have "whl_chain ?m (head (head_last wheel)) c" by (simp add: live_chain_def)
    from whl_return_loop_chain_gen [OF this refl refl refl _ valid, of 0] pair size
    show ?thesis
      using False by (simp add: whl_return_slice_def Let_def)
  qed
qed


text \<open>
  Returning the first slice of \<open>wheel_320_three\<close> reclaims two slices, the first and the
  one returned before it, and leaves \<open>head\<close> at offset 2.
\<close>

theorem whl_return_slice_reclaims_witness:
  "live_chain wheel_320_three [0, 1, 2] \<and>
   aligned_size wheel_320_three \<noteq> 0 \<and>
   whl_return_slice wheel_320_three 0 = Some (Inr (2, wheel_320_tail))"
  using whl_return_slice_reclaims [of wheel_320_three "[0, 1, 2]" 0]
  by (simp add: eval_defs wheel_320_three_def wheel_320_tail_def live_chain_def
      returned_prefix_def fun_eq_iff)

section \<open>The flags of the eventfd layer\<close>

lemma efd_step_flags:
  assumes "efd_step wheel op = Some (Inr (wheel', event))" and "flags_follow wheel history"
  shows "flags_follow wheel' (event # history)"
proof (cases op)
  case (Make_slice size')
  with assms show ?thesis
    by (auto simp: efd_step_def whl_efd_make_slice_def flags_follow_def Let_def
        split: sum.splits prod.splits if_splits)
next
  case (Share_slice offset)
  with assms show ?thesis
    by (auto simp: efd_step_def whl_efd_share_slice_def flags_follow_def Let_def)
next
  case Next_shared_slice
  with assms show ?thesis
    by (auto simp: efd_step_def whl_efd_next_shared_slice_def flags_follow_def Let_def
        split: prod.splits if_splits)
next
  case (Return_slice off)
  with assms show ?thesis
    by (auto simp: efd_step_def whl_efd_return_slice_def flags_follow_def Let_def
        split: option.splits sum.splits prod.splits if_splits)
qed

lemma efd_run_flags:
  "efd_run wheel history ops = Some (Inr (wheel', history')) \<Longrightarrow>
   flags_follow wheel history \<Longrightarrow> flags_follow wheel' history'"
proof (induction ops arbitrary: wheel history)
  case Nil
  then show ?case by simp
next
  case (Cons op ops)
  then show ?case
    by (auto split: option.splits sum.splits prod.splits dest: efd_step_flags)
qed

lemmas efd_eval_defs =
  eval_defs whl_atomic_init_def whl_efd_init_from_eventfds_def efd_step_def
  whl_efd_make_slice_def whl_efd_share_slice_def whl_efd_next_shared_slice_def
  whl_efd_return_slice_def zeroed_atomic_def

text \<open>
  Claim C6 as stated fails. After allocate, share, peek, return the wheel is empty and
  the next peek returns \<open>WHL_INVALID_OFFSET\<close>, while \<open>is_readable\<close> is still 1. With a
  second, failing allocation before the share, the producer's last attempted allocation
  failed, and \<open>is_writable\<close> is 1 again after the return.
\<close>

theorem efd_flags_counterexample:
  "whl_atomic_init zeroed_atomic 128 = (0, atomic_128) \<and>
   efd_run (whl_efd_init_from_eventfds atomic_128 3 4) []
     [Make_slice 16, Share_slice 0, Next_shared_slice, Return_slice 0] =
     Some (Inr (efd_128_drained, [Returned 1, Peeked 0, Shared 0, Made 0])) \<and>
   is_readable (atomic efd_128_drained) = 1 \<and>
   fst (whl_efd_next_shared_slice efd_128_drained 0 0) = WHL_INVALID_OFFSET \<and>
   efd_run (whl_efd_init_from_eventfds atomic_128 3 4) []
     [Make_slice 16, Make_slice 16, Share_slice 0, Next_shared_slice, Return_slice 0] =
     Some (Inr (efd_128_drained,
                [Returned 1, Peeked 0, Shared 0, Made WHL_INVALID_OFFSET, Made 0])) \<and>
   is_writable (atomic efd_128_drained) = 1"
  by (simp add: efd_eval_defs wheel_128_def atomic_128_def wheel_128_returned_def
      efd_128_drained_def)

text \<open>
  Claim C6, amended. In every state reached from \<open>whl_atomic_init\<close> by calls of the
  eventfd layer, \<open>is_readable\<close> is 1 if and only if a slice was shared since the last
  peek that returned \<open>WHL_INVALID_OFFSET\<close> (it is 0 before the first share), and
  \<open>is_writable\<close> is 0 if and only if an allocation returned \<open>WHL_INVALID_OFFSET\<close>
  since the last call of \<open>whl_efd_return_slice\<close>; either flag is 0 or 1.
\<close>

theorem efd_flags_follow_history:
  assumes init: "whl_atomic_init atomic0 buf_size = (0, atomic')"
    and run: "efd_run (whl_efd_init_from_eventfds atomic' readable' writable') [] ops =
                Some (Inr (wheel, history))"
  shows "(is_readable (atomic wheel) = 1) = shared_since_failed_peek history \<and>
         (is_readable (atomic wheel) = 0) = (\<not> shared_since_failed_peek history) \<and>
         (is_writable (atomic wheel) = 1) = (\<not> failed_make_since_return history) \<and>
         (is_writable (atomic wheel) = 0) = failed_make_since_return history"
proof -
  from init have "flags_follow (whl_efd_init_from_eventfds atomic' readable' writable') []"
    by (auto simp: whl_atomic_init_def whl_efd_init_from_eventfds_def flags_follow_def Let_def
        split: prod.splits)
  from efd_run_flags [OF run this] show ?thesis
    by (simp add: flags_follow_def)
qed


text \<open>A failed allocation on the full wheel, nothing shared yet.\<close>

theorem efd_flags_follow_history_witness:
  "whl_atomic_init zeroed_atomic 128 = (0, atomic_128) \<and>
   efd_run (whl_efd_init_from_eventfds atomic_128 3 4) [] [Make_slice 16, Make_slice 16] =
     Some (Inr (efd_128_full, [Made WHL_INVALID_OFFSET, Made 0])) \<and>
   is_readable (atomic efd_128_full) = 0 \<and>
   \<not> shared_since_failed_peek [Made WHL_INVALID_OFFSET, Made 0] \<and>
   is_writable (atomic efd_128_full) = 0 \<and>
   failed_make_since_return [Made WHL_INVALID_OFFSET, Made 0]"
  using efd_flags_follow_history [of zeroed_atomic 128 atomic_128 3 4
      "[Make_slice 16, Make_slice 16]" efd_128_full "[Made WHL_INVALID_OFFSET, Made 0]"]
  by (simp add: efd_eval_defs wheel_128_def atomic_128_def wheel_128_one_slice_def
      efd_128_full_def)

section \<open>Receiving descriptors\<close>

lemma scast_nonneg:
  assumes "0 \<le>s (x :: c_int)"
  shows "uint (scast x :: size_t) = sint x"
proof -
  have nonneg: "0 \<le> sint x"
    using assms by (simp add: word_sle_eq)
  have "sint x < 2 ^ 31"
    using sint_lt [of x] by simp
  then have "sint x < 2 ^ 64"
    by (rule less_trans) simp
  with nonneg have "take_bit 64 (sint x) = sint x"
    by (simp add: take_bit_int_eq_self)
  then show ?thesis
    by (simp only: scast_eq uint_word_of_int_eq len_bit0 len_num1 One_nat_def) simp_all
qed

text \<open>
  Claim C9. When the datagram carries no control message, or one whose level or type
  is not \<open>SOL_SOCKET\<close> / \<open>SCM_RIGHTS\<close>, and the caller passed a count, the call stores
  zero in the count, leaves \<open>outfds\<close> alone, closes nothing and returns \<open>ret\<close>, the
  non-negative number of payload bytes.
\<close>

theorem recv_fds_with_data_no_rights:
  assumes "recvmsg_retry msgs = Some r" and "0 \<le>s rm_ret r" and "lacks_rights r"
    and "n_outfds = Some n"
  shows "recv_fds_with_data msgs outfds n_outfds =
           Some (Inr \<lparr>returned = scast (rm_ret r), outfds_after = outfds,
                       n_outfds_after = Some 0, closed = []\<rparr>) \<and>
         uint (scast (rm_ret r) :: size_t) = sint (rm_ret r)"
proof -
  have "\<not> rm_ret r <s 0" using assms(2) by (simp add: word_sless_alt word_sle_eq)
  with assms have "recv_fds_with_data msgs outfds n_outfds =
           Some (Inr \<lparr>returned = scast (rm_ret r), outfds_after = outfds,
                       n_outfds_after = Some 0, closed = []\<rparr>)"
    by (auto simp: recv_fds_with_data_def recv_no_rights_def lacks_rights_def Let_def
        split: option.splits)
  with scast_nonneg [OF assms(2)] show ?thesis by simp
qed

text \<open>A datagram without control message, received after one interrupted attempt.\<close>

theorem recv_fds_with_data_no_rights_witness:
  "recvmsg_retry [msg_eintr, msg_plain] = Some msg_plain \<and>
   0 \<le>s rm_ret msg_plain \<and>
   lacks_rights msg_plain \<and>
   recv_fds_with_data [msg_eintr, msg_plain] (Some [0, 0, 0]) (Some 3) =
     Some (Inr \<lparr>returned = 1, outfds_after = Some [0, 0, 0], n_outfds_after = Some 0,
                 closed = []\<rparr>)"
  using recv_fds_with_data_no_rights [of "[msg_eintr, msg_plain]" msg_plain "Some 3" 3
      "Some [0, 0, 0]"]
  by (simp add: msg_eintr_def msg_plain_def lacks_rights_def EINTR_def word_sle_eq
      word_sless_alt)

text \<open>
  Claim C10. With \<open>n_outfds\<close> \<open>NULL\<close>, a datagram that lacks an \<open>SCM_RIGHTS\<close> message
  makes the call write through the null pointer, while a datagram that has one is
  received with a maximum of zero descriptors: none is copied, all are closed, nothing
  is stored. With \<open>n_outfds\<close> not \<open>NULL\<close>, the branch for a datagram that lacks the
  message completes without a fault.
\<close>

theorem recv_fds_with_data_null_count:
  "(recvmsg_retry msgs = Some r \<and> 0 \<le>s rm_ret r \<and> lacks_rights r \<longrightarrow>
      recv_fds_with_data msgs outfds None = Some (Inl Scm_null_deref)) \<and>
   (recvmsg_retry msgs = Some r \<and> 0 \<le>s rm_ret r \<and> rm_cmsg r = Some cmsg \<and>
    cmsg_level cmsg = SOL_SOCKET \<and> cmsg_type cmsg = SCM_RIGHTS \<longrightarrow>
      recv_fds_with_data msgs outfds None =
        Some (Inr \<lparr>returned = scast (rm_ret r), outfds_after = outfds, n_outfds_after = None,
                    closed = cmsg_fds cmsg\<rparr>)) \<and>
   (recvmsg_retry msgs = Some r \<and> 0 \<le>s rm_ret r \<and> lacks_rights r \<longrightarrow>
      recv_fds_with_data msgs outfds (Some n) =
        Some (Inr \<lparr>returned = scast (rm_ret r), outfds_after = outfds,
                    n_outfds_after = Some 0, closed = []\<rparr>))"
proof -
  have c: "copy_fds 0 0 fds outfds = Inr (0, fds, outfds)" for fds
    by (cases fds) simp_all
  show ?thesis
    by (auto simp: recv_fds_with_data_def recv_no_rights_def recv_rights_def lacks_rights_def
        Let_def c word_sless_alt word_sle_eq split: option.splits)
qed


theorem recv_fds_with_data_null_count_witness:
  "recv_fds_with_data [msg_plain] (Some [0, 0, 0]) None = Some (Inl Scm_null_deref) \<and>
   recv_fds_with_data [msg_rights] (Some [0, 0, 0]) None =
     Some (Inr \<lparr>returned = 1, outfds_after = Some [0, 0, 0], n_outfds_after = None,
                 closed = [5, 6, 7]\<rparr>) \<and>
   recv_fds_with_data [msg_plain] (Some [0, 0, 0]) (Some 3) =
     Some (Inr \<lparr>returned = 1, outfds_after = Some [0, 0, 0], n_outfds_after = Some 0,
                 closed = []\<rparr>)"
  using recv_fds_with_data_null_count [of "[msg_plain]" msg_plain "Some [0, 0, 0]" _ 3]
    recv_fds_with_data_null_count [of "[msg_rights]" msg_rights "Some [0, 0, 0]"
      "\<lparr>cmsg_level = SOL_SOCKET, cmsg_type = SCM_RIGHTS, cmsg_fds = [5, 6, 7]\<rparr>" 3]
  by (simp add: msg_plain_def msg_rights_def lacks_rights_def word_sle_eq word_sless_alt)

end
